theory Spec2Isabelle
  imports Complex_Main
begin

section \<open>Data model\<close>

text \<open>
  The source is Cython over C doubles and C ints. A \<^verbatim>\<open>double\<close> is modelled as a
  \<^typ>\<open>real\<close> (no rounding, no infinities), a C \<^verbatim>\<open>int\<close> as an \<^typ>\<open>int\<close>
  (every index stays below the array sizes, so it never wraps). The one place where a
  not-a-number value is stored on purpose is the pair of output fields: their cells are
  \<^typ>\<open>real option\<close>, with \<open>None\<close> for NaN.

  A one-dimensional memoryview \<^verbatim>\<open>double[:]\<close> is a record of the buffer and of what
  the memory around it holds: every function of the source is compiled with
  \<^verbatim>\<open>boundscheck(False)\<close> and \<^verbatim>\<open>wraparound(False)\<close>, so an index outside the
  buffer is not an exception but a read of the neighbouring memory.
\<close>

record memview =
  cells :: "real list"
  beyond :: "int \<Rightarrow> real"

definition msize :: "memview \<Rightarrow> int" where
  "msize mv = int (length (cells mv))"

definition mget :: "memview \<Rightarrow> int \<Rightarrow> real" where
  "mget mv i = (if 0 \<le> i \<and> i < msize mv then cells mv ! nat i else beyond mv i)"

section \<open>Constants\<close>

definition MY_NWTG :: real where
  "MY_NWTG = 66742999 / 10 ^ 15"

definition MY_SPLC :: real where
  "MY_SPLC = 29979245800"

definition MY_MPC :: real where
  "MY_MPC = 308567758 * 10 ^ 16"

definition MY_SCHW :: real where
  "MY_SCHW = 14852320538237328 / 10 ^ 44"

definition GW_DADT_SEP_CONST :: real where
  "GW_DADT_SEP_CONST = - 64 * MY_NWTG ^ 3 / 5 / MY_SPLC ^ 5"

definition KEPLER_CONST_FREQ :: real where
  "KEPLER_CONST_FREQ = (1 / (2 * pi)) * sqrt MY_NWTG"

definition KEPLER_CONST_SEPA :: real where
  "KEPLER_CONST_SEPA = MY_NWTG powr (1 / 3) / (2 * pi) powr (2 / 3)"

definition FOUR_PI_SPLC_OVER_MPC :: real where
  "FOUR_PI_SPLC_OVER_MPC = 4 * pi * MY_SPLC / MY_MPC"

section \<open>Hardening rate and Kepler's law\<close>

text \<open>
  C's \<^verbatim>\<open>pow\<close> with a literal integer exponent is written with \<open>^\<close>; with any other
  exponent it is \<open>powr\<close>, which is C's \<^verbatim>\<open>pow\<close> on a positive base.
  \<^verbatim>\<open>log10\<close> is \<open>log 10\<close>.
\<close>

definition hard_gw :: "real \<Rightarrow> real \<Rightarrow> real \<Rightarrow> real" where
  "hard_gw mtot mrat sepa =
     GW_DADT_SEP_CONST * mtot ^ 3 * mrat / sepa ^ 3 / (1 + mrat) ^ 2"

definition kepler_freq_from_sepa :: "real \<Rightarrow> real \<Rightarrow> real" where
  "kepler_freq_from_sepa mtot sepa = KEPLER_CONST_FREQ * sqrt mtot / sepa powr (3 / 2)"

definition kepler_sepa_from_freq :: "real \<Rightarrow> real \<Rightarrow> real" where
  "kepler_sepa_from_freq mtot freq =
     KEPLER_CONST_SEPA * mtot powr (1 / 3) / freq powr (2 / 3)"

definition hard_func_2pwl :: "real \<Rightarrow> real \<Rightarrow> real \<Rightarrow> real \<Rightarrow> real" where
  "hard_func_2pwl nrm xx gamma_inner gamma_outer =
     - nrm * (1 + xx) powr (- gamma_outer + gamma_inner) / xx powr (gamma_inner - 1)"

definition hard_func_2pwl_gw ::
  "real \<Rightarrow> real \<Rightarrow> real \<Rightarrow> real \<Rightarrow> real \<Rightarrow> real \<Rightarrow> real \<Rightarrow> real" where
  "hard_func_2pwl_gw mtot mrat sepa nrm rchar gamma_inner gamma_outer =
     hard_func_2pwl nrm (sepa / rchar) gamma_inner gamma_outer + hard_gw mtot mrat sepa"

section \<open>Index search\<close>

text \<open>
  \<^verbatim>\<open>while_while\<close> is two loops in sequence: the first moves the index up while the next
  edge is below the value, the second moves it down while the previous edge is above.
\<close>

function while_while_up :: "int \<Rightarrow> real \<Rightarrow> memview \<Rightarrow> int \<Rightarrow> int" where
  "while_while_up sz val edges index =
     (if index < sz - 1 \<and> mget edges (index + 1) < val
      then while_while_up sz val edges (index + 1) else index)"
  by pat_completeness auto
termination
  by (relation "measure (\<lambda>(sz, val, edges, index). nat (sz - 1 - index))") auto

declare while_while_up.simps [simp del]

function while_while_down :: "real \<Rightarrow> memview \<Rightarrow> int \<Rightarrow> int" where
  "while_while_down val edges index =
     (if index > 0 \<and> mget edges (index - 1) > val
      then while_while_down val edges (index - 1) else index)"
  by pat_completeness auto
termination
  by (relation "measure (\<lambda>(val, edges, index). nat index)") auto

declare while_while_down.simps [simp del]

definition while_while :: "int \<Rightarrow> int \<Rightarrow> real \<Rightarrow> memview \<Rightarrow> int" where
  "while_while start sz val edges =
     while_while_down val edges (while_while_up sz val edges start)"

section \<open>Interpolation helpers\<close>

text \<open>
  The two interpolation helpers are imported from \<^verbatim>\<open>holodeck.cyutils\<close>, which is
  not among the source files.
\<close>

definition interp_between_vals :: "real \<Rightarrow> real \<Rightarrow> real \<Rightarrow> real \<Rightarrow> real \<Rightarrow> real" where
  \<comment> \<open>Modelled from the spec: \<^verbatim>\<open>_interp_between_vals\<close> of \<^verbatim>\<open>holodeck.cyutils\<close> is missing;
      the spec has it interpolate linearly between \<open>(xl, yl)\<close> and \<open>(xr, yr)\<close> at \<open>xnew\<close>.\<close>
  "interp_between_vals xnew xl xr yl yr = yl + (yr - yl) * (xnew - xl) / (xr - xl)"

definition interp_at_index :: "int \<Rightarrow> real \<Rightarrow> memview \<Rightarrow> memview \<Rightarrow> real" where
  \<comment> \<open>Modelled from the spec: \<^verbatim>\<open>interp_at_index\<close> of \<^verbatim>\<open>holodeck.cyutils\<close> is missing;
      the spec has it interpolate linearly in a table at a supplied index: here on the
      table segment from \<open>idx\<close> to \<open>idx + 1\<close>.\<close>
  "interp_at_index idx xnew xold yold =
     mget yold idx
       + (mget yold (idx + 1) - mget yold idx) / (mget xold (idx + 1) - mget xold idx)
         * (xnew - mget xold idx)"

section \<open>Coalescence-time integrator\<close>

record integrate_2pl_params =
  target_time :: real
  mt :: real
  mr :: real
  sepa_init :: real
  rchar :: real
  gamma_inner :: real
  gamma_outer :: real
  nsteps :: int

text \<open>
  The loop of \<^verbatim>\<open>_integrate_binary_evolution_2pl\<close> carries
  \<open>(sepa_log10, sepa_left, dadt_left, time)\<close>; its body does not use the counter.
\<close>

definition evolution_step ::
  "integrate_2pl_params \<Rightarrow> real \<Rightarrow> real \<Rightarrow> real \<times> real \<times> real \<times> real
     \<Rightarrow> real \<times> real \<times> real \<times> real" where
  "evolution_step pars nrm dx = (\<lambda>(s_log10, s_left, d_left, time).
     let s_log10' = s_log10 - dx;
         s_right = 10 powr s_log10';
         d_right = hard_func_2pwl_gw (mt pars) (mr pars) s_right
                     nrm (rchar pars) (gamma_inner pars) (gamma_outer pars);
         dt = 2 * (s_right - s_left) / (d_left + d_right)
     in (s_log10', s_right, d_right, time + dt))"

definition evolution_init :: "integrate_2pl_params \<Rightarrow> real \<Rightarrow> real \<times> real \<times> real \<times> real" where
  "evolution_init pars nrm =
     (let s_log10 = log 10 (integrate_2pl_params.sepa_init pars);
          s_left = 10 powr s_log10;
          d_left = hard_func_2pwl_gw (mt pars) (mr pars) s_left
                     nrm (rchar pars) (gamma_inner pars) (gamma_outer pars)
      in (s_log10, s_left, d_left, 0))"

definition evolution_dx :: "integrate_2pl_params \<Rightarrow> real" where
  "evolution_dx pars =
     (let risco_log10 = log 10 (3 * MY_SCHW * mt pars);
          s_log10 = log 10 (integrate_2pl_params.sepa_init pars)
      in (s_log10 - risco_log10) / real_of_int (nsteps pars))"

definition evolution_after ::
  "integrate_2pl_params \<Rightarrow> real \<Rightarrow> nat \<Rightarrow> real \<times> real \<times> real \<times> real" where
  "evolution_after pars nrm k =
     ((evolution_step pars nrm (evolution_dx pars)) ^^ k) (evolution_init pars nrm)"



section \<open>Normalization solver\<close>





section \<open>Dynamic binary-number mapper\<close>

text \<open>
  The arguments of \<^verbatim>\<open>_dynamic_binary_number_at_fobs\<close>. The two- and three-dimensional
  memoryviews are functions of their indices (the loops only index them inside their
  shape). An output field maps \<open>(mass, ratio, redshift, frequency)\<close> to its cell.
  The \<^verbatim>\<open>printf\<close> calls of the source only print and are left out.
\<close>

record mapper_args =
  target_fobs_orb :: memview
  hard_norm :: "nat \<Rightarrow> nat \<Rightarrow> real"
  hard_rchar :: real
  hard_gamma_inner :: real
  hard_gamma_outer :: real
  dens :: "nat \<Rightarrow> nat \<Rightarrow> nat \<Rightarrow> real"
  mtot :: memview
  mrat :: memview
  redz :: memview
  gmt_time :: "nat \<Rightarrow> nat \<Rightarrow> nat \<Rightarrow> real"
  sepa_init :: real
  num_steps :: int
  redz_interp_grid :: memview
  dcom_interp_grid :: memview
  tage_interp_grid :: memview

type_synonym field = "nat \<times> nat \<times> nat \<times> int \<Rightarrow> real option"

definition nf :: "mapper_args \<Rightarrow> int" where
  "nf A = msize (target_fobs_orb A)"

definition nm :: "mapper_args \<Rightarrow> int" where
  "nm A = msize (mtot A)"

definition nq :: "mapper_args \<Rightarrow> int" where
  "nq A = msize (mrat A)"

definition nz :: "mapper_args \<Rightarrow> int" where
  "nz A = msize (redz A)"

definition ninterp :: "mapper_args \<Rightarrow> int" where
  "ninterp A = msize (redz_interp_grid A)"

definition age_universe :: "mapper_args \<Rightarrow> real" where
  "age_universe A = mget (tage_interp_grid A) (ninterp A - 1)"

definition sepa_init_log10 :: "mapper_args \<Rightarrow> real" where
  "sepa_init_log10 A = log 10 (sepa_init A)"

text \<open>
  Ages at the formation redshifts: \<open>rev\<close> (here \<open>rv\<close>) runs from \<open>nz - 1\<close> down to \<open>0\<close> and the
  table index \<open>ii\<close> is kept from one redshift to the next. The table is read at
  \<open>ii + 1\<close> before \<open>ii\<close> is compared with the table size.
\<close>

function redz_age_search :: "mapper_args \<Rightarrow> int \<Rightarrow> int \<Rightarrow> int" where
  "redz_age_search A rv ii =
     (if mget (redz_interp_grid A) (ii + 1) > mget (redz A) rv \<and> ii < ninterp A - 1
      then redz_age_search A rv (ii + 1) else ii)"
  by pat_completeness auto
termination
  by (relation "measure (\<lambda>(A, rv, ii). nat (ninterp A - 1 - ii))") auto

declare redz_age_search.simps [simp del]

primrec redz_age_loop :: "mapper_args \<Rightarrow> nat \<Rightarrow> int \<Rightarrow> (nat \<Rightarrow> real) \<Rightarrow> (nat \<Rightarrow> real)" where
  "redz_age_loop A 0 ii age = age"
| "redz_age_loop A (Suc rv) ii age =
     (let ii' = redz_age_search A (int rv) ii
      in redz_age_loop A rv ii'
           (age(rv := interp_at_index ii' (mget (redz A) (int rv))
                         (redz_interp_grid A) (tage_interp_grid A))))"

definition redz_age :: "mapper_args \<Rightarrow> nat \<Rightarrow> real" where
  \<comment> \<open>the buffer comes from \<^verbatim>\<open>malloc\<close>; every entry below \<open>nz\<close> is written by the loop\<close>
  "redz_age A = redz_age_loop A (nat (nz A)) 0 (\<lambda>_. 0)"

text \<open>
  The variables carried through the steps of one \<open>(mass, ratio)\<close> pair, the two output
  fields among them.
\<close>

record mstate =
  sepa_log10 :: real
  sepa_left :: real
  dadt_left :: real
  frst_orb_left :: real
  time_evo :: real
  interp_left :: int
  fidx :: int
  redz_final :: field
  diff_num :: field

text \<open>The values computed for one starting redshift at one step.\<close>

record bin_edges =
  time_left :: real
  time_right :: real
  interp_right :: int
  redz_left :: real
  redz_right :: real
  fobs_orb_left :: real
  fobs_orb_right :: real

definition record_crossing ::
  "mapper_args \<Rightarrow> nat \<Rightarrow> nat \<Rightarrow> nat \<Rightarrow> bin_edges \<Rightarrow> int \<Rightarrow> real \<Rightarrow> real \<Rightarrow> mstate \<Rightarrow> mstate" where
  "record_crossing A ii jj kk b ff ftemp newz st =
     (let target_frst_orb = ftemp * (1 + newz);
          sepa = kepler_sepa_from_freq (mget (mtot A) (int ii)) target_frst_orb;
          dadt = hard_func_2pwl_gw (mget (mtot A) (int ii)) (mget (mrat A) (int jj)) sepa
                   (hard_norm A ii jj) (hard_rchar A) (hard_gamma_inner A) (hard_gamma_outer A);
          tres = - (2 / 3) * sepa / dadt;
          dcom_left = interp_at_index (interp_left st) (time_left b)
                        (tage_interp_grid A) (dcom_interp_grid A);
          dcom_right = interp_at_index (interp_right b) (time_right b)
                         (tage_interp_grid A) (dcom_interp_grid A);
          dcom = interp_between_vals ftemp (fobs_orb_left b) (fobs_orb_right b)
                   dcom_left dcom_right;
          cosmo_fact = FOUR_PI_SPLC_OVER_MPC * (1 + newz) * (dcom / MY_MPC) ^ 2
      in st\<lparr>redz_final := (redz_final st)((ii, jj, kk, ff) := Some newz),
            diff_num := (diff_num st)((ii, jj, kk, ff) :=
                          Some (dens A ii jj kk * tres * cosmo_fact))\<rparr>)"

function crossings ::
  "mapper_args \<Rightarrow> nat \<Rightarrow> nat \<Rightarrow> nat \<Rightarrow> bin_edges \<Rightarrow> int \<Rightarrow> real \<Rightarrow> mstate \<Rightarrow> mstate" where
  "crossings A ii jj kk b ff ftemp st =
     (if fobs_orb_left b < ftemp \<and> ftemp < fobs_orb_right b \<and> ff < nf A
      then
        (let newz = interp_between_vals ftemp (fobs_orb_left b) (fobs_orb_right b)
                      (redz_left b) (redz_right b);
             st' = (if newz > 0 then record_crossing A ii jj kk b ff ftemp newz st else st);
             ftemp' = (if ff + 1 < nf A then mget (target_fobs_orb A) (ff + 1) else ftemp)
         in crossings A ii jj kk b (ff + 1) ftemp' st')
      else st)"
  by pat_completeness auto
termination
  by (relation "measure (\<lambda>(A, ii, jj, kk, b, ff, ftemp, st). nat (nf A - ff))") auto

declare crossings.simps [simp del]

datatype flow = Continue | Break

definition locate_bin ::
  "mapper_args \<Rightarrow> real \<Rightarrow> real \<Rightarrow> real \<Rightarrow> mstate \<Rightarrow> mstate \<times> bin_edges" where
  "locate_bin A frst_orb_right t_left t_right st =
     (let i_left = while_while (interp_left st) (ninterp A) t_left (tage_interp_grid A);
          i_right = while_while i_left (ninterp A) t_left (tage_interp_grid A);
          z_left = interp_at_index i_left t_left (tage_interp_grid A) (redz_interp_grid A);
          z_right = interp_at_index i_right t_right (tage_interp_grid A) (redz_interp_grid A)
      in (st\<lparr>interp_left := i_left\<rparr>,
          \<lparr>time_left = t_left, time_right = t_right, interp_right = i_right,
           redz_left = z_left, redz_right = z_right,
           fobs_orb_left = frst_orb_left st / (1 + z_left),
           fobs_orb_right = frst_orb_right / (1 + z_right)\<rparr>))"

definition zbody ::
  "mapper_args \<Rightarrow> (nat \<Rightarrow> real) \<Rightarrow> nat \<Rightarrow> nat \<Rightarrow> real \<Rightarrow> real \<Rightarrow> nat \<Rightarrow> mstate
     \<Rightarrow> flow \<times> mstate" where
  "zbody A ages ii jj frst_orb_right dt kk st =
     (let gmt = gmt_time A ii jj kk;
          t_left = (time_evo st - dt) + gmt + ages kk;
          t_right = time_evo st + gmt + ages kk
      in if t_left > age_universe A then (Continue, st)
         else
           (let (st1, b) = locate_bin A frst_orb_right t_left t_right st
            in if fobs_orb_left b > mget (target_fobs_orb A) (nf A - 1) then (Break, st1)
               else
                 (let st2 = st1\<lparr>fidx := while_while (fidx st1) (nf A) (fobs_orb_left b)
                                          (target_fobs_orb A)\<rparr>
                  in (Continue,
                      crossings A ii jj kk b (fidx st2) (mget (target_fobs_orb A) (fidx st2)) st2))))"

text \<open>
  The loop over starting redshifts: \<open>kk\<close> runs from \<open>nz - 1\<close> down to \<open>0\<close>; a
  \<^verbatim>\<open>continue\<close> goes on with the next lower bin, a \<^verbatim>\<open>break\<close> leaves the loop.
\<close>

primrec zloop ::
  "mapper_args \<Rightarrow> (nat \<Rightarrow> real) \<Rightarrow> nat \<Rightarrow> nat \<Rightarrow> real \<Rightarrow> real \<Rightarrow> nat \<Rightarrow> mstate \<Rightarrow> mstate" where
  "zloop A ages ii jj frst_orb_right dt 0 st = st"
| "zloop A ages ii jj frst_orb_right dt (Suc kk) st =
     (case zbody A ages ii jj frst_orb_right dt kk st of
        (Break, st') \<Rightarrow> st'
      | (Continue, st') \<Rightarrow> zloop A ages ii jj frst_orb_right dt kk st')"

definition mapper_dx :: "mapper_args \<Rightarrow> nat \<Rightarrow> real" where
  "mapper_dx A ii =
     (let risco = 3 * MY_SCHW * mget (mtot A) (int ii);
          risco_log10 = log 10 risco
      in (sepa_init_log10 A - risco_log10) / real_of_int (num_steps A))"

definition mapper_step ::
  "mapper_args \<Rightarrow> (nat \<Rightarrow> real) \<Rightarrow> nat \<Rightarrow> nat \<Rightarrow> mstate \<Rightarrow> mstate" where
  "mapper_step A ages ii jj st =
     (let s_log10 = sepa_log10 st - mapper_dx A ii;
          sepa_right = 10 powr s_log10;
          frst_orb_right = kepler_freq_from_sepa (mget (mtot A) (int ii)) sepa_right;
          dadt_right = hard_func_2pwl_gw (mget (mtot A) (int ii)) (mget (mrat A) (int jj))
                         sepa_right (hard_norm A ii jj) (hard_rchar A)
                         (hard_gamma_inner A) (hard_gamma_outer A);
          dt = 2 * (sepa_right - sepa_left st) / (dadt_left st + dadt_right);
          st1 = st\<lparr>sepa_log10 := s_log10, time_evo := time_evo st + dt\<rparr>;
          st2 = zloop A ages ii jj frst_orb_right dt (nat (nz A)) st1
      in st2\<lparr>dadt_left := dadt_right, sepa_left := sepa_right,
              frst_orb_left := frst_orb_right\<rparr>)"

definition mapper_init :: "mapper_args \<Rightarrow> nat \<Rightarrow> nat \<Rightarrow> field \<times> field \<Rightarrow> mstate" where
  "mapper_init A ii jj out =
     (let s_left = 10 powr sepa_init_log10 A
      in \<lparr>sepa_log10 = sepa_init_log10 A,
          sepa_left = s_left,
          dadt_left = hard_func_2pwl_gw (mget (mtot A) (int ii)) (mget (mrat A) (int jj))
                        s_left (hard_norm A ii jj) (hard_rchar A)
                        (hard_gamma_inner A) (hard_gamma_outer A),
          frst_orb_left = kepler_freq_from_sepa (mget (mtot A) (int ii)) s_left,
          time_evo = 0, interp_left = 0, fidx = 0,
          redz_final = fst out, diff_num = snd out\<rparr>)"

definition mapper_after ::
  "mapper_args \<Rightarrow> (nat \<Rightarrow> real) \<Rightarrow> nat \<Rightarrow> nat \<Rightarrow> field \<times> field \<Rightarrow> nat \<Rightarrow> mstate" where
  "mapper_after A ages ii jj out k = ((mapper_step A ages ii jj) ^^ k) (mapper_init A ii jj out)"

definition mapper_pair ::
  "mapper_args \<Rightarrow> (nat \<Rightarrow> real) \<Rightarrow> nat \<Rightarrow> nat \<Rightarrow> field \<times> field \<Rightarrow> field \<times> field" where
  "mapper_pair A ages ii jj out =
     (let st = mapper_after A ages ii jj out (nat (num_steps A))
      in (redz_final st, diff_num st))"

definition dynamic_binary_number_at_fobs_c :: "mapper_args \<Rightarrow> field \<times> field \<Rightarrow> field \<times> field" where
  "dynamic_binary_number_at_fobs_c A out =
     fold (\<lambda>ii. fold (\<lambda>jj. mapper_pair A (redz_age A) ii jj) [0..<nat (nq A)])
       [0..<nat (nm A)] out"

definition dynamic_binary_number_at_fobs :: "mapper_args \<Rightarrow> field \<times> field" where
  "dynamic_binary_number_at_fobs A =
     dynamic_binary_number_at_fobs_c A (\<lambda>_. None, \<lambda>_. Some 0)"

section \<open>Auxiliary notions for the proofs\<close>

definition outs :: "mstate \<Rightarrow> field \<times> field" where
  "outs st = (redz_final st, diff_num st)"

definition written :: "field \<times> field \<Rightarrow> nat \<times> nat \<times> nat \<times> int \<Rightarrow> bool" where
  "written out c = (\<exists>z v. 0 < z \<and> fst out c = Some z \<and> snd out c = Some v)"

definition cell_step ::
  "(nat \<times> nat \<times> nat \<times> int \<Rightarrow> bool) \<Rightarrow> field \<times> field \<Rightarrow> field \<times> field \<Rightarrow> bool" where
  "cell_step T out out' =
     (\<forall>c. (fst out' c = fst out c \<and> snd out' c = snd out c) \<or> (T c \<and> written out' c))"

definition same_vars :: "mstate \<Rightarrow> mstate \<Rightarrow> bool" where
  "same_vars st st' =
     (sepa_log10 st' = sepa_log10 st \<and> sepa_left st' = sepa_left st
      \<and> dadt_left st' = dadt_left st \<and> frst_orb_left st' = frst_orb_left st
      \<and> time_evo st' = time_evo st)"

definition stalled :: "mapper_args \<Rightarrow> (nat \<Rightarrow> real) \<Rightarrow> nat \<Rightarrow> nat \<Rightarrow> nat \<Rightarrow> real \<Rightarrow> bool" where
  "stalled A ages ii jj kk t = (t + gmt_time A ii jj kk + ages kk > age_universe A)"

definition on_track :: "mapper_args \<Rightarrow> nat \<Rightarrow> nat \<Rightarrow> mstate \<Rightarrow> bool" where
  "on_track A ii jj st =
     (sepa_left st = 10 powr sepa_log10 st
      \<and> dadt_left st =
          hard_func_2pwl_gw (mget (mtot A) (int ii)) (mget (mrat A) (int jj)) (sepa_left st)
            (hard_norm A ii jj) (hard_rchar A) (hard_gamma_inner A) (hard_gamma_outer A)
      \<and> frst_orb_left st = kepler_freq_from_sepa (mget (mtot A) (int ii)) (sepa_left st)
      \<and> 0 \<le> fidx st)"

definition valid_pair :: "mapper_args \<Rightarrow> nat \<Rightarrow> nat \<Rightarrow> bool" where
  "valid_pair A ii jj =
     (0 < mget (mtot A) (int ii) \<and> 0 < mget (mrat A) (int jj) \<and> 0 \<le> hard_norm A ii jj
      \<and> 0 < hard_rchar A \<and> 0 \<le> mapper_dx A ii)"

definition step_dt :: "mapper_args \<Rightarrow> nat \<Rightarrow> nat \<Rightarrow> mstate \<Rightarrow> real" where
  "step_dt A ii jj st =
     2 * (10 powr (sepa_log10 st - mapper_dx A ii) - sepa_left st)
       / (dadt_left st
          + hard_func_2pwl_gw (mget (mtot A) (int ii)) (mget (mrat A) (int jj))
              (10 powr (sepa_log10 st - mapper_dx A ii)) (hard_norm A ii jj) (hard_rchar A)
              (hard_gamma_inner A) (hard_gamma_outer A))"

text \<open>The cells one pair may write.\<close>

definition pair_cells :: "mapper_args \<Rightarrow> nat \<Rightarrow> nat \<Rightarrow> nat \<times> nat \<times> nat \<times> int \<Rightarrow> bool" where
  "pair_cells A ii jj c = (\<exists>k f. c = (ii, jj, k, f) \<and> k < nat (nz A) \<and> 0 \<le> f \<and> f < nf A)"

definition live_cells ::
  "mapper_args \<Rightarrow> (nat \<Rightarrow> real) \<Rightarrow> nat \<Rightarrow> nat \<Rightarrow> nat \<times> nat \<times> nat \<times> int \<Rightarrow> bool" where
  "live_cells A ages ii jj c =
     (\<exists>k f. c = (ii, jj, k, f) \<and> k < nat (nz A) \<and> 0 \<le> f \<and> f < nf A
            \<and> \<not> stalled A ages ii jj k 0)"

text \<open>The separation at the left edge after \<open>k\<close> iterations of the integrator's loop.\<close>

definition integrator_sepa :: "integrate_2pl_params \<Rightarrow> real \<Rightarrow> nat \<Rightarrow> real" where
  "integrator_sepa pars nrm k = fst (snd (evolution_after pars nrm k))"

text \<open>
  The integrator in closed form: the separation at step \<open>k\<close>, the rate at a separation
  for the parameters of one binary, and the time of step \<open>k\<close>.
\<close>

definition traj_sepa :: "integrate_2pl_params \<Rightarrow> nat \<Rightarrow> real" where
  "traj_sepa pars k =
     10 powr (log 10 (integrate_2pl_params.sepa_init pars) - real k * evolution_dx pars)"

definition rate_at :: "integrate_2pl_params \<Rightarrow> real \<Rightarrow> real \<Rightarrow> real" where
  "rate_at pars nrm a =
     hard_func_2pwl_gw (mt pars) (mr pars) a nrm (rchar pars) (gamma_inner pars) (gamma_outer pars)"

definition step_time :: "integrate_2pl_params \<Rightarrow> real \<Rightarrow> nat \<Rightarrow> real" where
  "step_time pars nrm k =
     2 * (traj_sepa pars (Suc k) - traj_sepa pars k)
       / (rate_at pars nrm (traj_sepa pars k) + rate_at pars nrm (traj_sepa pars (Suc k)))"

text \<open>
  The time of a step as a function of the normalization: a positive numerator over
  \<open>nrm\<close> times a positive shape term plus a positive gravitational-wave term.
\<close>

definition shape_at :: "integrate_2pl_params \<Rightarrow> real \<Rightarrow> real" where
  "shape_at pars a =
     (1 + a / rchar pars) powr (- gamma_outer pars + gamma_inner pars)
       / (a / rchar pars) powr (gamma_inner pars - 1)"

definition step_num :: "integrate_2pl_params \<Rightarrow> nat \<Rightarrow> real" where
  "step_num pars k = 2 * (traj_sepa pars k - traj_sepa pars (Suc k))"

definition step_shape :: "integrate_2pl_params \<Rightarrow> nat \<Rightarrow> real" where
  "step_shape pars k = shape_at pars (traj_sepa pars k) + shape_at pars (traj_sepa pars (Suc k))"

definition step_gw :: "integrate_2pl_params \<Rightarrow> nat \<Rightarrow> real" where
  "step_gw pars k =
     - (hard_gw (mt pars) (mr pars) (traj_sepa pars k)
        + hard_gw (mt pars) (mr pars) (traj_sepa pars (Suc k)))"

definition valid_params :: "integrate_2pl_params \<Rightarrow> bool" where
  "valid_params pars =
     (0 < mt pars \<and> 0 < mr pars \<and> 0 < rchar pars
      \<and> 3 * MY_SCHW * mt pars < integrate_2pl_params.sepa_init pars \<and> 1 \<le> nsteps pars)"


section \<open>Concrete inputs\<close>

text \<open>
  A one-binary population used to run the mapper on concrete numbers: the total mass is
  the one whose ISCO separation \<open>3 * MY_SCHW * mtot\<close> is exactly \<open>1\<close>, the initial
  separation is \<open>10^10\<close>, so that one step in \<open>log10\<close> of size \<open>10\<close> reaches ISCO.
\<close>

definition buf :: "real list \<Rightarrow> memview" where
  "buf xs = \<lparr>cells = xs, beyond = (\<lambda>_. 0)\<rparr>"

definition demo_mass :: real where
  "demo_mass = 10 ^ 44 / (3 * 14852320538237328)"

definition demo :: mapper_args where
  "demo = \<lparr>target_fobs_orb = buf [1],
           hard_norm = (\<lambda>_ _. 1),
           hard_rchar = 1,
           hard_gamma_inner = 1,
           hard_gamma_outer = 1,
           dens = (\<lambda>_ _ _. 1),
           mtot = buf [demo_mass],
           mrat = buf [1],
           redz = buf [3 / 2],
           gmt_time = (\<lambda>_ _ _. 0),
           sepa_init = 10 ^ 10,
           num_steps = 1,
           redz_interp_grid = buf [2, 1, 0],
           dcom_interp_grid = buf [5, 3, 0],
           tage_interp_grid = buf [0, 50, 1000]\<rparr>"

definition demo_stalled :: mapper_args where
  "demo_stalled = demo\<lparr>gmt_time := (\<lambda>_ _ _. 2000)\<rparr>"

definition demo_two_bins :: mapper_args where
  "demo_two_bins =
     demo\<lparr>target_fobs_orb := buf [45 / 10 ^ 8],
          redz := buf [41 / 5, 221 / 25],
          gmt_time := (\<lambda>_ _ kk. if kk = 1 then 44 else 0),
          redz_interp_grid := buf [9, 1, 0]\<rparr>"

definition same_binary :: "mapper_args \<Rightarrow> bool" where
  "same_binary A =
     (mtot A = mtot demo \<and> mrat A = mrat demo \<and> hard_norm A = hard_norm demo
      \<and> hard_rchar A = hard_rchar demo \<and> hard_gamma_inner A = hard_gamma_inner demo
      \<and> hard_gamma_outer A = hard_gamma_outer demo \<and> sepa_init A = sepa_init demo
      \<and> num_steps A = num_steps demo)"

text \<open>The rates, the step time and the frequency scale of that binary.\<close>

definition demo_rate_left :: real where
  "demo_rate_left = hard_func_2pwl_gw demo_mass 1 (10 ^ 10) 1 1 1 1"

definition demo_rate_right :: real where
  "demo_rate_right = hard_func_2pwl_gw demo_mass 1 1 1 1 1 1"

definition demo_dt :: real where
  "demo_dt = 2 * (1 - 10 ^ 10) / (demo_rate_left + demo_rate_right)"

definition demo_freq :: real where
  "demo_freq = KEPLER_CONST_FREQ * sqrt demo_mass"

text \<open>The state in which the single step of that binary enters the loop over redshifts.\<close>

definition demo_state :: mstate where
  "demo_state =
     \<lparr>sepa_log10 = 0, sepa_left = 10 ^ 10, dadt_left = demo_rate_left,
      frst_orb_left = demo_freq / 10 ^ 15, time_evo = demo_dt, interp_left = 0, fidx = 0,
      redz_final = (\<lambda>_. None), diff_num = (\<lambda>_. Some 0)\<rparr>"

section \<open>The interpolant the specification names\<close>

text \<open>
  The specification speaks of the piecewise-linear interpolant of a table: the value on
  the table segment that contains the argument. This definition follows those words, for
  comparison with what the mapper computes.
\<close>

fun piecewise_linear :: "real list \<Rightarrow> real list \<Rightarrow> real \<Rightarrow> real option" where
  "piecewise_linear (x0 # x1 # xs) (y0 # y1 # ys) t =
     (if x0 \<le> t \<and> t \<le> x1 then Some (y0 + (y1 - y0) * (t - x0) / (x1 - x0))
      else piecewise_linear (x1 # xs) (y1 # ys) t)"
| "piecewise_linear _ _ t = None"

section \<open>The differential number the specification names\<close>

text \<open>
  The number the specification gives for a recorded crossing: the stationary density times
  the residence time \<open>- (2/3) * sepa / (da/dt)\<close> at the crossing separation (Kepler's law
  inverted at the rest-frame frequency \<open>ftemp * (1 + newz)\<close>) times the weighting factor
  \<open>4 * pi * c * (1 + newz) * dcom^2 / Mpc^p\<close>, with the comoving distance interpolated at
  the crossing frequency between its values at the two step edges. The power \<open>p\<close> of the
  megaparsec is a parameter: the specification writes \<open>2\<close>.
\<close>

definition number_at_crossing ::
  "nat \<Rightarrow> mapper_args \<Rightarrow> nat \<Rightarrow> nat \<Rightarrow> nat \<Rightarrow> bin_edges \<Rightarrow> int \<Rightarrow> real \<Rightarrow> real \<Rightarrow> real" where
  "number_at_crossing p A ii jj kk b i_left ftemp newz =
     (let sepa = kepler_sepa_from_freq (mget (mtot A) (int ii)) (ftemp * (1 + newz));
          tau = - (2 / 3) * sepa
                  / hard_func_2pwl_gw (mget (mtot A) (int ii)) (mget (mrat A) (int jj)) sepa
                      (hard_norm A ii jj) (hard_rchar A) (hard_gamma_inner A)
                      (hard_gamma_outer A);
          dcom = interp_between_vals ftemp (fobs_orb_left b) (fobs_orb_right b)
                   (interp_at_index i_left (time_left b)
                      (tage_interp_grid A) (dcom_interp_grid A))
                   (interp_at_index (interp_right b) (time_right b)
                      (tage_interp_grid A) (dcom_interp_grid A))
      in dens A ii jj kk * tau * (4 * pi * MY_SPLC * (1 + newz) * dcom ^ 2 / MY_MPC ^ p))"

text \<open>
  The step edges of the one-binary input at its only step and bin, and the redshift
  interpolated at its only target edge.
\<close>

definition demo_bin :: bin_edges where
  "demo_bin = snd (locate_bin demo demo_freq 25 (demo_dt + 25) demo_state)"

definition demo_newz :: real where
  "demo_newz = interp_between_vals 1 (fobs_orb_left demo_bin) (fobs_orb_right demo_bin)
                 (redz_left demo_bin) (redz_right demo_bin)"

text \<open>The integrator's parameters for the same binary.\<close>

definition demo_params :: integrate_2pl_params where
  "demo_params = \<lparr>target_time = 0, mt = demo_mass, mr = 1,
                   integrate_2pl_params.sepa_init = 10 ^ 10, rchar = 1,
                   gamma_inner = 1, gamma_outer = 1, nsteps = 1\<rparr>"



section \<open>Properties of the hardening rate\<close>

lemma GW_DADT_SEP_CONST_neg: "GW_DADT_SEP_CONST < 0"
  by (simp add: GW_DADT_SEP_CONST_def MY_NWTG_def MY_SPLC_def)

lemma hard_gw_neg:
  assumes "0 < m" "0 < q" "0 < a"
  shows "hard_gw m q a < 0"
proof -
  have pos: "0 < m ^ 3 * q / a ^ 3 / (1 + q) ^ 2"
    using assms by simp
  have "GW_DADT_SEP_CONST * (m ^ 3 * q / a ^ 3 / (1 + q) ^ 2) < 0"
    by (rule mult_neg_pos [OF GW_DADT_SEP_CONST_neg pos])
  moreover have "hard_gw m q a =
      GW_DADT_SEP_CONST * (m ^ 3 * q / a ^ 3 / (1 + q) ^ 2)"
    by (simp add: hard_gw_def)
  ultimately show ?thesis
    by (simp only:)
qed

lemma hard_func_2pwl_neg:
  assumes "0 < nrm" "0 < xx"
  shows "hard_func_2pwl nrm xx gi go < 0"
proof -
  have "0 < nrm * (1 + xx) powr (- go + gi) / xx powr (gi - 1)"
    using assms by simp
  then show ?thesis
    by (simp add: hard_func_2pwl_def)
qed

text \<open>
  C8. For positive total mass, mass ratio, separation, normalization and characteristic
  radius, and any slopes, the total hardening rate is the sum of the gravitational-wave
  term (the negative constant \<open>GW_DADT_SEP_CONST\<close> times \<open>mtot^3 * mrat / (1+mrat)^2 / sepa^3\<close>)
  and the double power law \<open>- norm * (1+x)^(gamma_inner - gamma_outer) / x^(gamma_inner - 1)\<close>
  in \<open>x = sepa / rchar\<close>, and it is strictly negative.
\<close>

theorem hard_func_2pwl_gw_sum_negative:
  assumes "0 < m" "0 < q" "q \<le> 1" "0 < a" "0 < nrm" "0 < rc"
  shows "hard_func_2pwl_gw m q a nrm rc gi go =
           GW_DADT_SEP_CONST * (m ^ 3 * q / (1 + q) ^ 2 / a ^ 3)
           + - nrm * (1 + a / rc) powr (gi - go)
               / (a / rc) powr (gi - 1)
         \<and> GW_DADT_SEP_CONST < 0
         \<and> hard_func_2pwl_gw m q a nrm rc gi go < 0"
proof -
  have x: "0 < a / rc"
    using assms by simp
  have eq: "hard_func_2pwl_gw m q a nrm rc gi go =
           GW_DADT_SEP_CONST * (m ^ 3 * q / (1 + q) ^ 2 / a ^ 3)
           + - nrm * (1 + a / rc) powr (gi - go)
               / (a / rc) powr (gi - 1)"
    by (simp add: hard_func_2pwl_gw_def hard_func_2pwl_def hard_gw_def ac_simps)
  have "hard_func_2pwl nrm (a / rc) gi go < 0"
    using assms(5) x by (rule hard_func_2pwl_neg)
  moreover have "hard_gw m q a < 0"
    using assms by (intro hard_gw_neg)
  ultimately have "hard_func_2pwl_gw m q a nrm rc gi go < 0"
    by (simp add: hard_func_2pwl_gw_def)
  with eq GW_DADT_SEP_CONST_neg show ?thesis
    by blast
qed

theorem hard_func_2pwl_gw_sum_negative_witness:
  "(0::real) < 1 \<and> (1::real) \<le> 1
   \<and> hard_func_2pwl_gw 1 1 1 1 1 1 1 = GW_DADT_SEP_CONST * (1 / 4) + - 1
   \<and> hard_func_2pwl_gw 1 1 1 1 1 1 1 < 0"
  using hard_func_2pwl_gw_sum_negative [of 1 1 1 1 1 1 1]
  by simp

section \<open>Index search\<close>

lemma while_while_up_bounds:
  "index \<le> while_while_up sz val edges index
   \<and> (index \<le> sz - 1 \<longrightarrow> while_while_up sz val edges index \<le> sz - 1)"
proof (induction sz val edges index rule: while_while_up.induct)
  case (1 sz val edges index)
  show ?case
  proof (cases "index < sz - 1 \<and> mget edges (index + 1) < val")
    case True
    with "1" show ?thesis by (subst (1 2) while_while_up.simps) auto
  next
    case False
    then show ?thesis by (subst (1 2) while_while_up.simps) auto
  qed
qed

lemma while_while_up_stop:
  "while_while_up sz val edges index < sz - 1 \<Longrightarrow>
   val \<le> mget edges (while_while_up sz val edges index + 1)"
proof (induction sz val edges index rule: while_while_up.induct)
  case (1 sz val edges index)
  show ?case
  proof (cases "index < sz - 1 \<and> mget edges (index + 1) < val")
    case True
    with "1" show ?thesis by (subst (asm) while_while_up.simps, subst while_while_up.simps) auto
  next
    case False
    with "1.prems" show ?thesis by (subst (asm) while_while_up.simps, subst while_while_up.simps) auto
  qed
qed

lemma while_while_down_bounds:
  "while_while_down val edges index \<le> index
   \<and> (0 \<le> index \<longrightarrow> 0 \<le> while_while_down val edges index)"
proof (induction val edges index rule: while_while_down.induct)
  case (1 val edges index)
  show ?case
  proof (cases "index > 0 \<and> mget edges (index - 1) > val")
    case True
    with "1" show ?thesis by (subst (1 2) while_while_down.simps) auto
  next
    case False
    then show ?thesis by (subst (1 2) while_while_down.simps) auto
  qed
qed

lemma while_while_down_stop:
  "0 < while_while_down val edges index \<Longrightarrow>
   mget edges (while_while_down val edges index - 1) \<le> val"
proof (induction val edges index rule: while_while_down.induct)
  case (1 val edges index)
  show ?case
  proof (cases "index > 0 \<and> mget edges (index - 1) > val")
    case True
    with "1" show ?thesis by (subst (asm) while_while_down.simps, subst while_while_down.simps) auto
  next
    case False
    with "1.prems" show ?thesis by (subst (asm) while_while_down.simps, subst while_while_down.simps) auto
  qed
qed

lemma while_while_down_moved:
  "while_while_down val edges index < index \<Longrightarrow>
   val < mget edges (while_while_down val edges index)"
proof (induction val edges index rule: while_while_down.induct)
  case (1 val edges index)
  show ?case
  proof (cases "index > 0 \<and> mget edges (index - 1) > val")
    case True
    note step = True
    have eq: "while_while_down val edges index = while_while_down val edges (index - 1)"
      using True by (subst while_while_down.simps) simp
    show ?thesis
    proof (cases "while_while_down val edges (index - 1) < index - 1")
      case True
      with "1.IH" step eq show ?thesis by simp
    next
      case False
      with while_while_down_bounds [of val edges "index - 1"]
      have "while_while_down val edges (index - 1) = index - 1" by simp
      with step eq show ?thesis by simp
    qed
  next
    case False
    then have "while_while_down val edges index = index"
      by (subst while_while_down.simps) auto
    with "1.prems" show ?thesis by simp
  qed
qed

lemma mget_sorted:
  assumes "sorted (cells edges)" "0 \<le> i" "i \<le> j" "j < msize edges"
  shows "mget edges i \<le> mget edges j"
  using assms by (simp add: mget_def msize_def sorted_nth_mono nat_le_iff)

text \<open>
  C10. For an ascending edges array of size at least one, a start index inside the array
  and any value, \<open>while_while\<close> returns an index inside the array; the edge before it
  (if there is one) is at most the value and the edge after it (if there is one) is at
  least the value.
\<close>

theorem while_while_brackets:
  assumes srt: "sorted (cells edges)"
    and sz: "sz = msize edges" "1 \<le> sz"
    and start: "0 \<le> start" "start \<le> sz - 1"
  shows "0 \<le> while_while start sz val edges
         \<and> while_while start sz val edges \<le> sz - 1
         \<and> (0 < while_while start sz val edges \<longrightarrow>
              mget edges (while_while start sz val edges - 1) \<le> val)
         \<and> (while_while start sz val edges < sz - 1 \<longrightarrow>
              val \<le> mget edges (while_while start sz val edges + 1))"
proof -
  define u where "u = while_while_up sz val edges start"
  define r where "r = while_while_down val edges u"
  have r: "while_while start sz val edges = r"
    by (simp add: while_while_def r_def u_def)
  have u: "start \<le> u" "u \<le> sz - 1"
    using while_while_up_bounds [of start sz val edges] start by (simp_all add: u_def)
  have rb: "r \<le> u" "0 \<le> r"
    using while_while_down_bounds [of val edges u] u start by (simp_all add: r_def)
  have lo: "0 < r \<longrightarrow> mget edges (r - 1) \<le> val"
    using while_while_down_stop [of val edges u] by (simp add: r_def)
  have hi: "r < sz - 1 \<longrightarrow> val \<le> mget edges (r + 1)"
  proof
    assume lt: "r < sz - 1"
    show "val \<le> mget edges (r + 1)"
    proof (cases "r < u")
      case True
      then have "val < mget edges r"
        using while_while_down_moved [of val edges u] by (simp add: r_def)
      moreover have "mget edges r \<le> mget edges (r + 1)"
        using srt rb lt sz by (intro mget_sorted) simp_all
      ultimately show ?thesis by simp
    next
      case False
      with rb have "r = u" by simp
      with lt while_while_up_stop [of sz val edges start] show ?thesis
        by (simp add: u_def)
    qed
  qed
  from rb u lo hi show ?thesis
    unfolding r by simp
qed


theorem while_while_brackets_witness:
  "sorted (cells \<lparr>cells = [1, 2, 3], beyond = (\<lambda>_. 0)\<rparr>)
   \<and> while_while 0 3 (5 / 2) \<lparr>cells = [1, 2, 3], beyond = (\<lambda>_. 0)\<rparr> = 1
   \<and> mget \<lparr>cells = [1, 2, 3], beyond = (\<lambda>_. 0)\<rparr> (while_while 0 3 (5 / 2) \<lparr>cells = [1, 2, 3], beyond = (\<lambda>_. 0)\<rparr> - 1) \<le> 5 / 2
   \<and> 5 / 2 \<le> mget \<lparr>cells = [1, 2, 3], beyond = (\<lambda>_. 0)\<rparr> (while_while 0 3 (5 / 2) \<lparr>cells = [1, 2, 3], beyond = (\<lambda>_. 0)\<rparr> + 1)"
  using while_while_brackets [of "\<lparr>cells = [1, 2, 3], beyond = (\<lambda>_. 0)\<rparr>" 3 0 "5 / 2"]
  by (simp add: while_while_def while_while_up.simps while_while_down.simps mget_def msize_def)

section \<open>Which cells the mapper writes\<close>

lemma cell_step_refl: "cell_step T out out"
  unfolding cell_step_def by blast

lemma cell_step_trans:
  assumes "cell_step T out out'" "cell_step T out' out''"
  shows "cell_step T out out''"
  unfolding cell_step_def
proof
  fix c
  from assms(1) have a: "(fst out' c = fst out c \<and> snd out' c = snd out c) \<or> (T c \<and> written out' c)"
    unfolding cell_step_def by (rule spec)
  from assms(2) have b: "(fst out'' c = fst out' c \<and> snd out'' c = snd out' c) \<or> (T c \<and> written out'' c)"
    unfolding cell_step_def by (rule spec)
  from a b show "(fst out'' c = fst out c \<and> snd out'' c = snd out c) \<or> (T c \<and> written out'' c)"
    by (auto simp: written_def)
qed

lemma cell_step_mono:
  assumes "cell_step T out out'" "\<And>c. T c \<Longrightarrow> T' c"
  shows "cell_step T' out out'"
  using assms unfolding cell_step_def by blast

lemma same_vars_refl: "same_vars st st"
  by (simp add: same_vars_def)

lemma same_vars_trans: "same_vars st st' \<Longrightarrow> same_vars st' st'' \<Longrightarrow> same_vars st st''"
  by (simp add: same_vars_def)

lemma record_crossing_step:
  assumes "0 < newz" "0 \<le> ff" "ff < nf A"
  shows "cell_step (\<lambda>c. \<exists>f. c = (ii, jj, kk, f) \<and> 0 \<le> f \<and> f < nf A)
           (outs st) (outs (record_crossing A ii jj kk b ff ftemp newz st))"
  unfolding cell_step_def
proof
  fix c
  show "(fst (outs (record_crossing A ii jj kk b ff ftemp newz st)) c = fst (outs st) c
          \<and> snd (outs (record_crossing A ii jj kk b ff ftemp newz st)) c = snd (outs st) c)
        \<or> ((\<exists>f. c = (ii, jj, kk, f) \<and> 0 \<le> f \<and> f < nf A)
            \<and> written (outs (record_crossing A ii jj kk b ff ftemp newz st)) c)"
  proof (cases "c = (ii, jj, kk, ff)")
    case True
    with assms show ?thesis
      by (simp add: outs_def record_crossing_def Let_def written_def)
  next
    case False
    then show ?thesis
      by (simp add: outs_def record_crossing_def Let_def)
  qed
qed

lemma record_crossing_vars: "same_vars st (record_crossing A ii jj kk b ff ftemp newz st)"
  by (simp add: same_vars_def record_crossing_def Let_def)

lemma crossings_step:
  "0 \<le> ff \<Longrightarrow>
   cell_step (\<lambda>c. \<exists>f. c = (ii, jj, kk, f) \<and> 0 \<le> f \<and> f < nf A)
     (outs st) (outs (crossings A ii jj kk b ff ftemp st))
   \<and> same_vars st (crossings A ii jj kk b ff ftemp st)
   \<and> interp_left (crossings A ii jj kk b ff ftemp st) = interp_left st
   \<and> fidx (crossings A ii jj kk b ff ftemp st) = fidx st"
proof (induction A ii jj kk b ff ftemp st rule: crossings.induct)
  case (1 A ii jj kk b ff ftemp st)
  let ?T = "\<lambda>c. \<exists>f. c = (ii, jj, kk, f) \<and> 0 \<le> f \<and> f < nf A"
  show ?case
  proof (cases "fobs_orb_left b < ftemp \<and> ftemp < fobs_orb_right b \<and> ff < nf A")
    case False
    then have "crossings A ii jj kk b ff ftemp st = st"
      by (subst crossings.simps) auto
    then show ?thesis
      by (simp add: cell_step_refl same_vars_refl)
  next
    case True
    define newz where "newz = interp_between_vals ftemp (fobs_orb_left b) (fobs_orb_right b)
                      (redz_left b) (redz_right b)"
    define st' where "st' = (if newz > 0 then record_crossing A ii jj kk b ff ftemp newz st else st)"
    define ftemp' where "ftemp' = (if ff + 1 < nf A then mget (target_fobs_orb A) (ff + 1) else ftemp)"
    have eq: "crossings A ii jj kk b ff ftemp st = crossings A ii jj kk b (ff + 1) ftemp' st'"
      using True by (subst crossings.simps) (simp add: Let_def newz_def st'_def ftemp'_def)
    have first: "cell_step ?T (outs st) (outs st') \<and> same_vars st st'
        \<and> interp_left st' = interp_left st \<and> fidx st' = fidx st"
      using True "1.prems" record_crossing_step [of newz ff A ii jj kk st b ftemp]
        record_crossing_vars [of st A ii jj kk b ff ftemp newz]
      by (simp add: st'_def cell_step_refl same_vars_refl record_crossing_def Let_def)
    have rest: "cell_step ?T (outs st') (outs (crossings A ii jj kk b (ff + 1) ftemp' st'))
        \<and> same_vars st' (crossings A ii jj kk b (ff + 1) ftemp' st')
        \<and> interp_left (crossings A ii jj kk b (ff + 1) ftemp' st') = interp_left st'
        \<and> fidx (crossings A ii jj kk b (ff + 1) ftemp' st') = fidx st'"
      using "1.IH" [OF True newz_def st'_def ftemp'_def] "1.prems" by simp
    from first rest have "cell_step ?T (outs st) (outs (crossings A ii jj kk b (ff + 1) ftemp' st'))"
      by (blast intro: cell_step_trans)
    moreover from first rest have "same_vars st (crossings A ii jj kk b (ff + 1) ftemp' st')"
      by (blast intro: same_vars_trans)
    moreover from first rest have "interp_left (crossings A ii jj kk b (ff + 1) ftemp' st') = interp_left st"
      by simp
    moreover from first rest have "fidx (crossings A ii jj kk b (ff + 1) ftemp' st') = fidx st"
      by simp
    ultimately show ?thesis
      unfolding eq by blast
  qed
qed

lemma zbody_stalled:
  "stalled A ages ii jj kk (time_evo st - dt) \<Longrightarrow>
   zbody A ages ii jj frst_orb_right dt kk st = (Continue, st)"
  by (simp add: zbody_def stalled_def Let_def)

lemma while_while_nonneg: "0 \<le> start \<Longrightarrow> 0 \<le> while_while start sz val edges"
  using while_while_up_bounds [of start sz val edges]
    while_while_down_bounds [of val edges "while_while_up sz val edges start"]
  by (simp add: while_while_def)

lemma zbody_step:
  "0 \<le> fidx st \<Longrightarrow>
   cell_step (\<lambda>c. \<exists>f. c = (ii, jj, kk, f) \<and> 0 \<le> f \<and> f < nf A
                     \<and> \<not> stalled A ages ii jj kk (time_evo st - dt))
     (outs st) (outs (snd (zbody A ages ii jj frst_orb_right dt kk st)))
   \<and> same_vars st (snd (zbody A ages ii jj frst_orb_right dt kk st))
   \<and> 0 \<le> fidx (snd (zbody A ages ii jj frst_orb_right dt kk st))"
proof (cases "stalled A ages ii jj kk (time_evo st - dt)")
  case True
  assume "0 \<le> fidx st"
  with True show ?thesis
    by (simp add: zbody_stalled cell_step_refl same_vars_refl)
next
  case False
  assume f0: "0 \<le> fidx st"
  define t_left where "t_left = (time_evo st - dt) + gmt_time A ii jj kk + ages kk"
  define t_right where "t_right = time_evo st + gmt_time A ii jj kk + ages kk"
  obtain st1 b where lb: "locate_bin A frst_orb_right t_left t_right st = (st1, b)"
    by (cases "locate_bin A frst_orb_right t_left t_right st")
  define st2 where
    "st2 = st1\<lparr>fidx := while_while (fidx st1) (nf A) (fobs_orb_left b) (target_fobs_orb A)\<rparr>"
  have st1: "st1 = st\<lparr>interp_left :=
      while_while (interp_left st) (ninterp A) t_left (tage_interp_grid A)\<rparr>"
    using lb by (simp add: locate_bin_def Let_def)
  have nst: "\<not> t_left > age_universe A"
    using False by (simp add: stalled_def t_left_def)
  have o1: "outs st1 = outs st" "outs st2 = outs st"
    by (simp_all add: outs_def st1 st2_def)
  have v1: "same_vars st st1" "same_vars st st2"
    by (simp_all add: same_vars_def st1 st2_def)
  have f1: "0 \<le> fidx st1"
    using f0 by (simp add: st1)
  let ?T = "\<lambda>c. \<exists>f. c = (ii, jj, kk, f) \<and> 0 \<le> f \<and> f < nf A
                     \<and> \<not> stalled A ages ii jj kk (time_evo st - dt)"
  show ?thesis
  proof (cases "fobs_orb_left b > mget (target_fobs_orb A) (nf A - 1)")
    case True
    have "zbody A ages ii jj frst_orb_right dt kk st = (Break, st1)"
      using nst True lb
      by (simp add: zbody_def Let_def t_left_def [symmetric] t_right_def [symmetric])
    then show ?thesis
      using o1 v1 f1 by (simp add: cell_step_refl)
  next
    case nb: False
    have f2: "0 \<le> fidx st2"
      using f1 by (simp add: st2_def while_while_nonneg)
    have z: "zbody A ages ii jj frst_orb_right dt kk st =
        (Continue, crossings A ii jj kk b (fidx st2) (mget (target_fobs_orb A) (fidx st2)) st2)"
      using nst nb lb
      by (simp add: zbody_def Let_def t_left_def [symmetric] t_right_def [symmetric] st2_def)
    have c: "cell_step (\<lambda>c. \<exists>f. c = (ii, jj, kk, f) \<and> 0 \<le> f \<and> f < nf A) (outs st2)
               (outs (crossings A ii jj kk b (fidx st2) (mget (target_fobs_orb A) (fidx st2)) st2))"
      and v: "same_vars st2
               (crossings A ii jj kk b (fidx st2) (mget (target_fobs_orb A) (fidx st2)) st2)"
      and fx: "fidx (crossings A ii jj kk b (fidx st2) (mget (target_fobs_orb A) (fidx st2)) st2)
               = fidx st2"
      using crossings_step [OF f2, of ii jj kk A st2 b "mget (target_fobs_orb A) (fidx st2)"]
      by blast+
    have "cell_step ?T (outs st2)
            (outs (crossings A ii jj kk b (fidx st2) (mget (target_fobs_orb A) (fidx st2)) st2))"
      by (rule cell_step_mono [OF c]) (use False in blast)
    moreover have "same_vars st
            (crossings A ii jj kk b (fidx st2) (mget (target_fobs_orb A) (fidx st2)) st2)"
      using v1(2) v by (rule same_vars_trans)
    ultimately show ?thesis
      using f2 by (simp add: z o1 fx)
  qed
qed

lemma zloop_step:
  "0 \<le> fidx st \<Longrightarrow>
   cell_step (\<lambda>c. \<exists>k f. c = (ii, jj, k, f) \<and> k < n \<and> 0 \<le> f \<and> f < nf A
                     \<and> \<not> stalled A ages ii jj k (time_evo st - dt))
     (outs st) (outs (zloop A ages ii jj frst_orb_right dt n st))
   \<and> same_vars st (zloop A ages ii jj frst_orb_right dt n st)
   \<and> 0 \<le> fidx (zloop A ages ii jj frst_orb_right dt n st)"
proof (induction n arbitrary: st)
  case 0
  then show ?case by (simp add: cell_step_refl same_vars_refl)
next
  case (Suc n)
  let ?T = "\<lambda>t c. \<exists>k f. c = (ii, jj, k, f) \<and> k < Suc n \<and> 0 \<le> f \<and> f < nf A
                     \<and> \<not> stalled A ages ii jj k (t - dt)"
  obtain fl st' where z: "zbody A ages ii jj frst_orb_right dt n st = (fl, st')"
    by (cases "zbody A ages ii jj frst_orb_right dt n st")
  have b: "cell_step (\<lambda>c. \<exists>f. c = (ii, jj, n, f) \<and> 0 \<le> f \<and> f < nf A
                     \<and> \<not> stalled A ages ii jj n (time_evo st - dt)) (outs st) (outs st')"
    and v: "same_vars st st'" and f': "0 \<le> fidx st'"
    using zbody_step [OF Suc.prems, of ii jj n A ages dt frst_orb_right] by (simp_all add: z)
  have b': "cell_step (?T (time_evo st)) (outs st) (outs st')"
    using b by (rule cell_step_mono) blast
  have te: "time_evo st' = time_evo st"
    using v by (simp add: same_vars_def)
  show ?case
  proof (cases fl)
    case Break
    then show ?thesis using z b' v f' by simp
  next
    case Continue
    have r: "cell_step (\<lambda>c. \<exists>k f. c = (ii, jj, k, f) \<and> k < n \<and> 0 \<le> f \<and> f < nf A
                     \<and> \<not> stalled A ages ii jj k (time_evo st' - dt))
               (outs st') (outs (zloop A ages ii jj frst_orb_right dt n st'))"
      and rv: "same_vars st' (zloop A ages ii jj frst_orb_right dt n st')"
      and rf: "0 \<le> fidx (zloop A ages ii jj frst_orb_right dt n st')"
      using Suc.IH [OF f'] by blast+
    have r': "cell_step (?T (time_evo st)) (outs st') (outs (zloop A ages ii jj frst_orb_right dt n st'))"
      using r unfolding te by (rule cell_step_mono) (use less_Suc_eq in blast)
    have "cell_step (?T (time_evo st)) (outs st) (outs (zloop A ages ii jj frst_orb_right dt n st'))"
      using b' r' by (rule cell_step_trans)
    moreover have "same_vars st (zloop A ages ii jj frst_orb_right dt n st')"
      using v rv by (rule same_vars_trans)
    ultimately show ?thesis
      using z Continue rf by simp
  qed
qed

lemma mapper_step_eq:
  "mapper_step A ages ii jj st =
     (zloop A ages ii jj
        (kepler_freq_from_sepa (mget (mtot A) (int ii)) (10 powr (sepa_log10 st - mapper_dx A ii)))
        (step_dt A ii jj st) (nat (nz A))
        (st\<lparr>sepa_log10 := sepa_log10 st - mapper_dx A ii,
            time_evo := time_evo st + step_dt A ii jj st\<rparr>))
     \<lparr>dadt_left := hard_func_2pwl_gw (mget (mtot A) (int ii)) (mget (mrat A) (int jj))
              (10 powr (sepa_log10 st - mapper_dx A ii)) (hard_norm A ii jj) (hard_rchar A)
              (hard_gamma_inner A) (hard_gamma_outer A),
       sepa_left := 10 powr (sepa_log10 st - mapper_dx A ii),
       frst_orb_left := kepler_freq_from_sepa (mget (mtot A) (int ii))
              (10 powr (sepa_log10 st - mapper_dx A ii))\<rparr>"
  by (simp add: mapper_step_def step_dt_def Let_def)

lemma mapper_step_props:
  assumes f0: "0 \<le> fidx st"
  shows "cell_step (\<lambda>c. \<exists>k f. c = (ii, jj, k, f) \<and> k < nat (nz A) \<and> 0 \<le> f \<and> f < nf A
                     \<and> \<not> stalled A ages ii jj k (time_evo st))
           (outs st) (outs (mapper_step A ages ii jj st))"
    and "sepa_log10 (mapper_step A ages ii jj st) = sepa_log10 st - mapper_dx A ii"
    and "sepa_left (mapper_step A ages ii jj st) = 10 powr (sepa_log10 st - mapper_dx A ii)"
    and "dadt_left (mapper_step A ages ii jj st) =
           hard_func_2pwl_gw (mget (mtot A) (int ii)) (mget (mrat A) (int jj))
              (10 powr (sepa_log10 st - mapper_dx A ii)) (hard_norm A ii jj) (hard_rchar A)
              (hard_gamma_inner A) (hard_gamma_outer A)"
    and "frst_orb_left (mapper_step A ages ii jj st) =
           kepler_freq_from_sepa (mget (mtot A) (int ii)) (10 powr (sepa_log10 st - mapper_dx A ii))"
    and "time_evo (mapper_step A ages ii jj st) = time_evo st + step_dt A ii jj st"
    and "0 \<le> fidx (mapper_step A ages ii jj st)"
proof -
  define fr where "fr = kepler_freq_from_sepa (mget (mtot A) (int ii))
      (10 powr (sepa_log10 st - mapper_dx A ii))"
  define st1 where "st1 = st\<lparr>sepa_log10 := sepa_log10 st - mapper_dx A ii,
            time_evo := time_evo st + step_dt A ii jj st\<rparr>"
  define st2 where "st2 = zloop A ages ii jj fr (step_dt A ii jj st) (nat (nz A)) st1"
  have f1: "0 \<le> fidx st1"
    using f0 by (simp add: st1_def)
  have z: "cell_step (\<lambda>c. \<exists>k f. c = (ii, jj, k, f) \<and> k < nat (nz A) \<and> 0 \<le> f \<and> f < nf A
                     \<and> \<not> stalled A ages ii jj k (time_evo st1 - step_dt A ii jj st))
             (outs st1) (outs st2)"
    and v: "same_vars st1 st2" and f2: "0 \<le> fidx st2"
    using zloop_step [OF f1, of ii jj "nat (nz A)" A ages "step_dt A ii jj st" fr]
    by (simp_all add: st2_def)
  have t1: "time_evo st1 - step_dt A ii jj st = time_evo st"
    by (simp add: st1_def)
  have o1: "outs st1 = outs st"
    by (simp add: outs_def st1_def)
  have eq: "mapper_step A ages ii jj st =
      st2\<lparr>dadt_left := hard_func_2pwl_gw (mget (mtot A) (int ii)) (mget (mrat A) (int jj))
              (10 powr (sepa_log10 st - mapper_dx A ii)) (hard_norm A ii jj) (hard_rchar A)
              (hard_gamma_inner A) (hard_gamma_outer A),
       sepa_left := 10 powr (sepa_log10 st - mapper_dx A ii), frst_orb_left := fr\<rparr>"
    by (simp add: mapper_step_eq st2_def st1_def fr_def)
  have o2: "outs (mapper_step A ages ii jj st) = outs st2"
    by (simp add: eq outs_def)
  show "cell_step (\<lambda>c. \<exists>k f. c = (ii, jj, k, f) \<and> k < nat (nz A) \<and> 0 \<le> f \<and> f < nf A
                     \<and> \<not> stalled A ages ii jj k (time_evo st))
           (outs st) (outs (mapper_step A ages ii jj st))"
    using z by (simp add: t1 o1 o2)
  show "sepa_log10 (mapper_step A ages ii jj st) = sepa_log10 st - mapper_dx A ii"
    using v by (simp add: eq same_vars_def st1_def)
  show "sepa_left (mapper_step A ages ii jj st) = 10 powr (sepa_log10 st - mapper_dx A ii)"
    by (simp add: eq)
  show "dadt_left (mapper_step A ages ii jj st) =
           hard_func_2pwl_gw (mget (mtot A) (int ii)) (mget (mrat A) (int jj))
              (10 powr (sepa_log10 st - mapper_dx A ii)) (hard_norm A ii jj) (hard_rchar A)
              (hard_gamma_inner A) (hard_gamma_outer A)"
    by (simp add: eq)
  show "frst_orb_left (mapper_step A ages ii jj st) =
           kepler_freq_from_sepa (mget (mtot A) (int ii)) (10 powr (sepa_log10 st - mapper_dx A ii))"
    by (simp add: eq fr_def)
  show "time_evo (mapper_step A ages ii jj st) = time_evo st + step_dt A ii jj st"
    using v by (simp add: eq same_vars_def st1_def)
  show "0 \<le> fidx (mapper_step A ages ii jj st)"
    using f2 by (simp add: eq)
qed

lemma on_track_step: "on_track A ii jj st \<Longrightarrow> on_track A ii jj (mapper_step A ages ii jj st)"
  by (simp add: on_track_def mapper_step_props)

lemma on_track_init: "on_track A ii jj (mapper_init A ii jj out)"
  by (simp add: on_track_def mapper_init_def Let_def)

lemma on_track_after: "on_track A ii jj (mapper_after A ages ii jj out k)"
  by (induction k) (simp_all add: mapper_after_def on_track_init on_track_step)

lemma sepa_log10_after:
  "sepa_log10 (mapper_after A ages ii jj out k) = sepa_init_log10 A - real k * mapper_dx A ii"
proof (induction k)
  case 0
  show ?case by (simp add: mapper_after_def mapper_init_def Let_def)
next
  case (Suc k)
  have "0 \<le> fidx (mapper_after A ages ii jj out k)"
    using on_track_after [of A ii jj ages out k] by (simp add: on_track_def)
  then have "sepa_log10 (mapper_after A ages ii jj out (Suc k)) =
      sepa_log10 (mapper_after A ages ii jj out k) - mapper_dx A ii"
    by (simp add: mapper_after_def mapper_step_props)
  with Suc show ?case by (simp add: algebra_simps)
qed

lemma hard_func_2pwl_nonpos:
  assumes "0 \<le> nrm" "0 < xx"
  shows "hard_func_2pwl nrm xx gi go \<le> 0"
proof -
  have "0 \<le> nrm * (1 + xx) powr (- go + gi) / xx powr (gi - 1)"
    using assms by simp
  then show ?thesis
    by (simp add: hard_func_2pwl_def)
qed

lemma hard_func_2pwl_gw_neg:
  assumes "0 < m" "0 < q" "0 < a" "0 \<le> nrm" "0 < rc"
  shows "hard_func_2pwl_gw m q a nrm rc gi go < 0"
proof -
  have "hard_func_2pwl nrm (a / rc) gi go \<le> 0"
    using assms by (intro hard_func_2pwl_nonpos) simp_all
  moreover have "hard_gw m q a < 0"
    using assms by (intro hard_gw_neg)
  ultimately show ?thesis
    by (simp add: hard_func_2pwl_gw_def)
qed

lemma step_dt_nonneg:
  assumes v: "valid_pair A ii jj" and t: "on_track A ii jj st"
  shows "0 \<le> step_dt A ii jj st"
proof -
  define sr where "sr = 10 powr (sepa_log10 st - mapper_dx A ii)"
  have sl: "sepa_left st = 10 powr sepa_log10 st"
    using t by (simp add: on_track_def)
  have "sr \<le> sepa_left st"
    using v unfolding sl sr_def valid_pair_def by (intro powr_mono) simp_all
  then have num: "2 * (sr - sepa_left st) \<le> 0"
    by simp
  have "dadt_left st < 0"
    using v t unfolding on_track_def valid_pair_def
    by (simp add: hard_func_2pwl_gw_neg)
  moreover have "hard_func_2pwl_gw (mget (mtot A) (int ii)) (mget (mrat A) (int jj)) sr
      (hard_norm A ii jj) (hard_rchar A) (hard_gamma_inner A) (hard_gamma_outer A) < 0"
    using v unfolding valid_pair_def sr_def by (intro hard_func_2pwl_gw_neg) simp_all
  ultimately have den: "dadt_left st + hard_func_2pwl_gw (mget (mtot A) (int ii))
      (mget (mrat A) (int jj)) sr (hard_norm A ii jj) (hard_rchar A) (hard_gamma_inner A)
      (hard_gamma_outer A) < 0"
    by simp
  show ?thesis
    unfolding step_dt_def sr_def [symmetric]
    using num den by (rule divide_nonpos_neg)
qed

lemma time_evo_after_nonneg:
  assumes v: "valid_pair A ii jj"
  shows "0 \<le> time_evo (mapper_after A ages ii jj out k)"
proof (induction k)
  case 0
  show ?case by (simp add: mapper_after_def mapper_init_def Let_def)
next
  case (Suc k)
  have t: "on_track A ii jj (mapper_after A ages ii jj out k)"
    by (rule on_track_after)
  then have f: "0 \<le> fidx (mapper_after A ages ii jj out k)"
    by (simp add: on_track_def)
  have "time_evo (mapper_after A ages ii jj out (Suc k)) =
      time_evo (mapper_after A ages ii jj out k)
        + step_dt A ii jj (mapper_after A ages ii jj out k)"
    using f by (simp add: mapper_after_def mapper_step_props)
  with Suc step_dt_nonneg [OF v t] show ?case by simp
qed

lemma outs_init: "outs (mapper_init A ii jj out) = out"
  by (simp add: outs_def mapper_init_def Let_def)

lemma stalled_later: "stalled A ages ii jj k 0 \<Longrightarrow> 0 \<le> t \<Longrightarrow> stalled A ages ii jj k t"
  by (simp add: stalled_def)

lemma mapper_after_Suc:
  "mapper_after A ages ii jj out (Suc k) =
     mapper_step A ages ii jj (mapper_after A ages ii jj out k)"
  by (simp add: mapper_after_def)

lemma mapper_after_cells:
  "cell_step (pair_cells A ii jj) out (outs (mapper_after A ages ii jj out k))"
proof (induction k)
  case 0
  show ?case by (simp add: mapper_after_def outs_init cell_step_refl)
next
  case (Suc k)
  have f: "0 \<le> fidx (mapper_after A ages ii jj out k)"
    using on_track_after [of A ii jj ages out k] by (simp add: on_track_def)
  have "cell_step (pair_cells A ii jj) (outs (mapper_after A ages ii jj out k))
      (outs (mapper_after A ages ii jj out (Suc k)))"
    unfolding pair_cells_def mapper_after_Suc
    by (rule cell_step_mono [OF mapper_step_props(1) [OF f, of ii jj A ages]]) blast
  with Suc show ?case by (rule cell_step_trans)
qed

lemma mapper_after_live_cells:
  assumes v: "valid_pair A ii jj"
  shows "cell_step (live_cells A ages ii jj) out (outs (mapper_after A ages ii jj out k))"
proof (induction k)
  case 0
  show ?case by (simp add: mapper_after_def outs_init cell_step_refl)
next
  case (Suc k)
  have f: "0 \<le> fidx (mapper_after A ages ii jj out k)"
    using on_track_after [of A ii jj ages out k] by (simp add: on_track_def)
  have t: "0 \<le> time_evo (mapper_after A ages ii jj out k)"
    using v by (rule time_evo_after_nonneg)
  have "cell_step (live_cells A ages ii jj) (outs (mapper_after A ages ii jj out k))
      (outs (mapper_after A ages ii jj out (Suc k)))"
    unfolding live_cells_def mapper_after_Suc
    by (rule cell_step_mono [OF mapper_step_props(1) [OF f, of ii jj A ages]])
      (use t stalled_later in blast)
  with Suc show ?case by (rule cell_step_trans)
qed

lemma mapper_pair_cells: "cell_step (pair_cells A ii jj) out (mapper_pair A ages ii jj out)"
  using mapper_after_cells [of A ii jj out ages "nat (num_steps A)"]
  by (simp add: mapper_pair_def Let_def outs_def)

lemma mapper_pair_live_cells:
  "valid_pair A ii jj \<Longrightarrow> cell_step (live_cells A ages ii jj) out (mapper_pair A ages ii jj out)"
  using mapper_after_live_cells [of A ii jj ages out "nat (num_steps A)"]
  by (simp add: mapper_pair_def Let_def outs_def)

lemma fold_cell_step:
  assumes "\<And>x out. x \<in> set xs \<Longrightarrow> cell_step (T x) out (f x out)"
  shows "cell_step (\<lambda>c. \<exists>x \<in> set xs. T x c) out (fold f xs out)"
  using assms
proof (induction xs arbitrary: out)
  case Nil
  show ?case by (simp add: cell_step_refl)
next
  case (Cons x xs)
  have a: "cell_step (\<lambda>c. \<exists>y \<in> set (x # xs). T y c) out (f x out)"
    by (rule cell_step_mono [OF Cons.prems [of x out]]) auto
  have "cell_step (\<lambda>c. \<exists>y \<in> set xs. T y c) (f x out) (fold f xs (f x out))"
    by (rule Cons.IH) (simp add: Cons.prems)
  then have b: "cell_step (\<lambda>c. \<exists>y \<in> set (x # xs). T y c) (f x out) (fold f xs (f x out))"
    by (rule cell_step_mono) auto
  show ?case
    using cell_step_trans [OF a b] by simp
qed

lemma pass_cell_step:
  assumes "\<And>i j out. i < nat (nm A) \<Longrightarrow> j < nat (nq A) \<Longrightarrow>
             cell_step (T i j) out (mapper_pair A (redz_age A) i j out)"
  shows "cell_step (\<lambda>c. \<exists>i j. i < nat (nm A) \<and> j < nat (nq A) \<and> T i j c)
           out (dynamic_binary_number_at_fobs_c A out)"
proof -
  have inner: "cell_step (\<lambda>c. \<exists>j \<in> set [0..<nat (nq A)]. T i j c) out
      (fold (\<lambda>jj. mapper_pair A (redz_age A) i jj) [0..<nat (nq A)] out)"
    if "i \<in> set [0..<nat (nm A)]" for i out
    using that by (intro fold_cell_step assms) simp_all
  have "cell_step (\<lambda>c. \<exists>i \<in> set [0..<nat (nm A)]. \<exists>j \<in> set [0..<nat (nq A)]. T i j c) out
      (dynamic_binary_number_at_fobs_c A out)"
    unfolding dynamic_binary_number_at_fobs_c_def
    by (rule fold_cell_step) (rule inner)
  then show ?thesis
  proof (rule cell_step_mono)
    fix c
    assume "\<exists>i \<in> set [0..<nat (nm A)]. \<exists>j \<in> set [0..<nat (nq A)]. T i j c"
    then obtain i j where "i \<in> set [0..<nat (nm A)]" "j \<in> set [0..<nat (nq A)]" "T i j c"
      by blast
    then have "i < nat (nm A) \<and> j < nat (nq A) \<and> T i j c"
      by simp
    then show "\<exists>i j. i < nat (nm A) \<and> j < nat (nq A) \<and> T i j c"
      by blast
  qed
qed

lemma pass_pair_cells:
  "cell_step (\<lambda>c. \<exists>i j. i < nat (nm A) \<and> j < nat (nq A) \<and> pair_cells A i j c)
     out (dynamic_binary_number_at_fobs_c A out)"
  by (rule pass_cell_step) (rule mapper_pair_cells)

lemma cell_step_result:
  assumes "cell_step T (\<lambda>_. None, \<lambda>_. Some 0) out"
  shows "(fst out c = None \<and> snd out c = Some 0) \<or> (T c \<and> written out c)"
  using assms unfolding cell_step_def by (erule_tac x = c in allE) simp

lemma mapper_cells_initial_or_written:
  "(fst (dynamic_binary_number_at_fobs A) c = None
      \<and> snd (dynamic_binary_number_at_fobs A) c = Some 0)
   \<or> (\<exists>z v. 0 < z \<and> fst (dynamic_binary_number_at_fobs A) c = Some z
            \<and> snd (dynamic_binary_number_at_fobs A) c = Some v)"
  using cell_step_result [OF pass_pair_cells [of A "(\<lambda>_. None, \<lambda>_. Some 0)"], of c]
  unfolding dynamic_binary_number_at_fobs_def written_def by blast

lemma mapper_no_edges:
  assumes "nf A = 0"
  shows "dynamic_binary_number_at_fobs A = (\<lambda>_. None, \<lambda>_. Some 0)"
proof -
  have "(fst (dynamic_binary_number_at_fobs A) c = None
      \<and> snd (dynamic_binary_number_at_fobs A) c = Some 0)" for c
    using cell_step_result [OF pass_pair_cells [of A "(\<lambda>_. None, \<lambda>_. Some 0)"], of c] assms
    unfolding dynamic_binary_number_at_fobs_def pair_cells_def by auto
  then have "fst (dynamic_binary_number_at_fobs A) = (\<lambda>_. None)"
    and "snd (dynamic_binary_number_at_fobs A) = (\<lambda>_. Some 0)"
    by blast+
  then show ?thesis
    by (simp add: prod_eq_iff)
qed

lemma mapper_stalled_cell:
  assumes v: "valid_pair A ii jj"
    and s: "stalled A (redz_age A) ii jj kk 0"
  shows "fst (dynamic_binary_number_at_fobs A) (ii, jj, kk, f) = None
         \<and> snd (dynamic_binary_number_at_fobs A) (ii, jj, kk, f) = Some 0"
proof -
  define T where "T = (\<lambda>i j. if i = ii \<and> j = jj then live_cells A (redz_age A) i j
                              else pair_cells A i j)"
  have "cell_step (T i j) out (mapper_pair A (redz_age A) i j out)" for i j out
    using v by (simp add: T_def mapper_pair_cells mapper_pair_live_cells)
  then have "cell_step (\<lambda>c. \<exists>i j. i < nat (nm A) \<and> j < nat (nq A) \<and> T i j c)
      (\<lambda>_. None, \<lambda>_. Some 0) (dynamic_binary_number_at_fobs A)"
    unfolding dynamic_binary_number_at_fobs_def by (intro pass_cell_step)
  moreover have "\<not> (\<exists>i j. i < nat (nm A) \<and> j < nat (nq A) \<and> T i j (ii, jj, kk, f))"
    using s by (auto simp: T_def live_cells_def pair_cells_def)
  ultimately show ?thesis
    using cell_step_result by blast
qed

section \<open>The mapper on the concrete inputs\<close>

lemma log10_pow10: "log 10 (10 ^ 10) = (10::real)"
  using log_nat_power [of 10 10 10] by simp

lemma isco_demo: "3 * MY_SCHW * demo_mass = 1"
  by (simp add: MY_SCHW_def demo_mass_def)

lemma pow10_powr: "(10 ^ 10 :: real) powr (3 / 2) = 10 ^ 15"
proof -
  have "(10 ^ 10 :: real) = 10 powr 10" by simp
  then have "(10 ^ 10 :: real) powr (3 / 2) = (10 powr 10) powr (3 / 2)" by simp
  also have "\<dots> = 10 powr 15" by (simp add: powr_powr)
  also have "\<dots> = 10 ^ 15" by simp
  finally show ?thesis .
qed

lemma demo_same: "same_binary demo" "same_binary demo_stalled" "same_binary demo_two_bins"
  by (simp_all add: same_binary_def demo_stalled_def demo_two_bins_def)

lemma same_binary_mt:
  assumes "same_binary A"
  shows "mget (mtot A) 0 = demo_mass" "mget (mrat A) 0 = 1" "nm A = 1" "nq A = 1"
    "hard_norm A ii jj = 1" "hard_rchar A = 1" "hard_gamma_inner A = 1" "hard_gamma_outer A = 1"
    "sepa_init A = 10 ^ 10" "num_steps A = 1"
  using assms by (simp_all add: same_binary_def demo_def buf_def mget_def msize_def nm_def nq_def)

lemma demo_dx:
  assumes "same_binary A"
  shows "sepa_init_log10 A = 10" "mapper_dx A 0 = 10"
  using same_binary_mt [OF assms] log10_pow10 isco_demo
  by (simp_all add: sepa_init_log10_def mapper_dx_def Let_def)

lemma demo_dt_bounds: "45 < demo_dt" "demo_dt < 46"
  by (simp_all add: demo_dt_def demo_rate_left_def demo_rate_right_def hard_func_2pwl_gw_def
      hard_func_2pwl_def hard_gw_def GW_DADT_SEP_CONST_def MY_NWTG_def MY_SPLC_def demo_mass_def
      power_divide field_simps)

lemma demo_init:
  assumes "same_binary A"
  shows "mapper_init A 0 0 out =
     \<lparr>sepa_log10 = 10, sepa_left = 10 ^ 10, dadt_left = demo_rate_left,
      frst_orb_left = demo_freq / 10 ^ 15, time_evo = 0, interp_left = 0, fidx = 0,
      redz_final = fst out, diff_num = snd out\<rparr>"
  using same_binary_mt [OF assms] demo_dx [OF assms] pow10_powr
  by (simp add: mapper_init_def Let_def demo_rate_left_def kepler_freq_from_sepa_def demo_freq_def)

lemma demo_step_dt:
  assumes "same_binary A"
  shows "step_dt A 0 0 (mapper_init A 0 0 out) = demo_dt"
  using same_binary_mt [OF assms] demo_dx [OF assms]
  by (simp add: demo_init [OF assms] step_dt_def demo_dt_def demo_rate_left_def demo_rate_right_def)


lemma demo_freq_bounds: "15 * 10 ^ 8 < demo_freq" "demo_freq < 325 * 10 ^ 7"
proof -
  define s where "s = sqrt (MY_NWTG * demo_mass)"
  have lo: "12 * 10 ^ 9 < s"
    unfolding s_def by (rule real_less_rsqrt) (simp add: MY_NWTG_def demo_mass_def)
  have hi: "s < 13 * 10 ^ 9"
    unfolding s_def by (rule real_less_lsqrt) (simp_all add: MY_NWTG_def demo_mass_def)
  have f: "demo_freq = s / (2 * pi)"
    by (simp add: demo_freq_def KEPLER_CONST_FREQ_def s_def real_sqrt_mult)
  have "15 * 10 ^ 8 * (2 * pi) < 12 * 10 ^ 9"
    using pi_less_4 by simp
  also note lo
  finally show "15 * 10 ^ 8 < demo_freq"
    unfolding f using pi_gt_zero by (simp add: pos_less_divide_eq)
  have "s < 325 * 10 ^ 7 * (2 * 2)"
    using hi by simp
  also have "\<dots> \<le> 325 * 10 ^ 7 * (2 * pi)"
    using pi_ge_two by simp
  finally show "demo_freq < 325 * 10 ^ 7"
    unfolding f using pi_gt_zero by (simp add: pos_divide_less_eq)
qed

lemma demo_ages:
  "redz_age demo 0 = 25" "redz_age demo_stalled 0 = 25"
  "redz_age demo_two_bins 0 = 5" "redz_age demo_two_bins (Suc 0) = 1"
  by (simp_all add: redz_age_def demo_def demo_stalled_def demo_two_bins_def nz_def ninterp_def
      msize_def mget_def buf_def redz_age_search.simps interp_at_index_def Let_def
      numeral_2_eq_2)

lemma demo_age_universe:
  "age_universe demo = 1000" "age_universe demo_stalled = 1000"
  "age_universe demo_two_bins = 1000"
  by (simp_all add: age_universe_def demo_def demo_stalled_def demo_two_bins_def ninterp_def
      msize_def mget_def buf_def)

lemma demo_valid:
  assumes "same_binary A"
  shows "valid_pair A 0 0"
  using same_binary_mt [OF assms] demo_dx [OF assms]
  by (simp add: valid_pair_def demo_mass_def)

lemma demo_stalled_bin: "stalled demo_stalled (redz_age demo_stalled) 0 0 0 0"
  by (simp add: stalled_def demo_ages demo_age_universe) (simp add: demo_stalled_def)

lemma cell_step_keeps:
  assumes "cell_step T out out'" "fst out c \<noteq> None"
  shows "fst out' c \<noteq> None"
  using assms unfolding cell_step_def written_def
  by (erule_tac x = c in allE) auto

lemma crossings_records:
  assumes "fobs_orb_left b < ftemp" "ftemp < fobs_orb_right b" "0 \<le> ff" "ff < nf A"
    and "0 < interp_between_vals ftemp (fobs_orb_left b) (fobs_orb_right b)
               (redz_left b) (redz_right b)"
  shows "redz_final (crossings A ii jj kk b ff ftemp st) (ii, jj, kk, ff) \<noteq> None"
proof -
  define newz where "newz = interp_between_vals ftemp (fobs_orb_left b) (fobs_orb_right b)
                      (redz_left b) (redz_right b)"
  define st' where "st' = record_crossing A ii jj kk b ff ftemp newz st"
  define ftemp' where "ftemp' = (if ff + 1 < nf A then mget (target_fobs_orb A) (ff + 1) else ftemp)"
  have eq: "crossings A ii jj kk b ff ftemp st = crossings A ii jj kk b (ff + 1) ftemp' st'"
    using assms by (subst crossings.simps) (simp add: Let_def newz_def st'_def ftemp'_def)
  have "fst (outs st') (ii, jj, kk, ff) \<noteq> None"
    by (simp add: outs_def st'_def record_crossing_def Let_def)
  moreover have "cell_step (\<lambda>c. \<exists>f. c = (ii, jj, kk, f) \<and> 0 \<le> f \<and> f < nf A)
     (outs st') (outs (crossings A ii jj kk b (ff + 1) ftemp' st'))"
    using crossings_step [of "ff + 1" ii jj kk A st' b ftemp'] assms(3) by simp
  ultimately have "fst (outs (crossings A ii jj kk b (ff + 1) ftemp' st')) (ii, jj, kk, ff) \<noteq> None"
    using cell_step_keeps by blast
  then show ?thesis
    by (simp add: eq outs_def)
qed

lemma interp_between_vals_pos:
  assumes "xl < x" "x < xr" "0 < yl" "0 < yr"
  shows "0 < interp_between_vals x xl xr yl yr"
proof -
  define t where "t = (x - xl) / (xr - xl)"
  have t: "0 < t" "t < 1"
    using assms by (simp_all add: t_def)
  have "interp_between_vals x xl xr yl yr = yl + (yr - yl) * t"
    by (simp add: interp_between_vals_def t_def)
  also have "\<dots> = (1 - t) * yl + t * yr"
    by (simp add: algebra_simps)
  finally have "interp_between_vals x xl xr yl yr = (1 - t) * yl + t * yr" .
  moreover have "0 < (1 - t) * yl" "0 < t * yr"
    using t assms by simp_all
  ultimately show ?thesis by simp
qed

lemma zloop_one:
  "zloop A ages ii jj fr dt (Suc 0) st = snd (zbody A ages ii jj fr dt 0 st)"
  by (cases "zbody A ages ii jj fr dt 0 st") (simp split: flow.splits)

lemma demo_pass:
  assumes "same_binary A"
  shows "dynamic_binary_number_at_fobs A =
     outs (zloop A (redz_age A) 0 0 demo_freq demo_dt (nat (nz A)) demo_state)"
proof -
  have st1: "(mapper_init A 0 0 (\<lambda>_. None, \<lambda>_. Some 0))
      \<lparr>sepa_log10 := sepa_log10 (mapper_init A 0 0 (\<lambda>_. None, \<lambda>_. Some 0)) - mapper_dx A 0,
       time_evo := time_evo (mapper_init A 0 0 (\<lambda>_. None, \<lambda>_. Some 0))
          + step_dt A 0 0 (mapper_init A 0 0 (\<lambda>_. None, \<lambda>_. Some 0))\<rparr> = demo_state"
    unfolding demo_step_dt [OF assms]
    by (simp add: demo_init [OF assms] demo_dx [OF assms] demo_state_def)
  have fr: "kepler_freq_from_sepa (mget (mtot A) (int 0))
      (10 powr (sepa_log10 (mapper_init A 0 0 (\<lambda>_. None, \<lambda>_. Some 0)) - mapper_dx A 0)) = demo_freq"
    using same_binary_mt [OF assms]
    by (simp add: demo_init [OF assms] demo_dx [OF assms] kepler_freq_from_sepa_def demo_freq_def)
  have "outs (mapper_step A (redz_age A) 0 0 (mapper_init A 0 0 (\<lambda>_. None, \<lambda>_. Some 0))) =
      outs (zloop A (redz_age A) 0 0 demo_freq
              (step_dt A 0 0 (mapper_init A 0 0 (\<lambda>_. None, \<lambda>_. Some 0))) (nat (nz A)) demo_state)"
    by (simp only: mapper_step_eq st1 fr) (simp add: outs_def)
  then have "mapper_pair A (redz_age A) 0 0 (\<lambda>_. None, \<lambda>_. Some 0) =
      outs (zloop A (redz_age A) 0 0 demo_freq demo_dt (nat (nz A)) demo_state)"
    using same_binary_mt(10) [OF assms]
    by (simp add: mapper_pair_def mapper_after_def demo_step_dt [OF assms] outs_def Let_def)
  then show ?thesis
    using same_binary_mt [OF assms]
    by (simp add: dynamic_binary_number_at_fobs_def dynamic_binary_number_at_fobs_c_def)
qed

lemma zbody_break:
  assumes "\<not> stalled A ages ii jj kk (time_evo st - dt)"
    and "locate_bin A fr ((time_evo st - dt) + gmt_time A ii jj kk + ages kk)
           (time_evo st + gmt_time A ii jj kk + ages kk) st = (st1, b)"
    and "fobs_orb_left b > mget (target_fobs_orb A) (nf A - 1)"
  shows "zbody A ages ii jj fr dt kk st = (Break, st1)"
  using assms by (simp add: zbody_def stalled_def Let_def)

lemma zbody_live:
  assumes "\<not> stalled A ages ii jj kk (time_evo st - dt)"
    and "locate_bin A fr ((time_evo st - dt) + gmt_time A ii jj kk + ages kk)
           (time_evo st + gmt_time A ii jj kk + ages kk) st = (st1, b)"
    and "\<not> fobs_orb_left b > mget (target_fobs_orb A) (nf A - 1)"
  shows "zbody A ages ii jj fr dt kk st =
     (Continue,
      crossings A ii jj kk b
        (while_while (fidx st1) (nf A) (fobs_orb_left b) (target_fobs_orb A))
        (mget (target_fobs_orb A)
           (while_while (fidx st1) (nf A) (fobs_orb_left b) (target_fobs_orb A)))
        (st1\<lparr>fidx := while_while (fidx st1) (nf A) (fobs_orb_left b) (target_fobs_orb A)\<rparr>))"
  using assms by (simp add: zbody_def stalled_def Let_def)




lemma while_while_single: "while_while 0 1 val edges = 0"
  by (simp add: while_while_def while_while_up.simps while_while_down.simps)

lemma demo_facts:
  "gmt_time demo 0 0 0 = 0" "nf demo = 1" "mget (target_fobs_orb demo) 0 = 1"
  "nat (nz demo) = Suc 0" "time_evo demo_state = demo_dt" "fidx demo_state = 0"
  "frst_orb_left demo_state = demo_freq / 10 ^ 15"
  by (simp_all add: demo_def demo_state_def nf_def nz_def msize_def mget_def buf_def)




lemma mget_buf: "mget (buf xs) i = (if 0 \<le> i \<and> i < int (length xs) then xs ! nat i else 0)"
  by (simp add: mget_def msize_def buf_def)

lemma demo_tables:
  "tage_interp_grid demo = buf [0, 50, 1000]" "redz_interp_grid demo = buf [2, 1, 0]"
  "dcom_interp_grid demo = buf [5, 3, 0]" "ninterp demo = 3"
  by (simp_all add: demo_def ninterp_def msize_def buf_def)

lemma demo_index: "while_while 0 3 25 (buf [0, 50, 1000]) = 0"
  by (simp add: while_while_def while_while_up.simps while_while_down.simps mget_buf)

lemma demo_interp:
  "interp_at_index 0 25 (buf [0, 50, 1000]) (buf [2, 1, 0]) = 3 / 2"
  "interp_at_index 0 (demo_dt + 25) (buf [0, 50, 1000]) (buf [2, 1, 0]) = 2 - (demo_dt + 25) / 50"
  by (simp_all add: interp_at_index_def mget_buf)


lemma demo_state_facts:
  "interp_left demo_state = 0" "fidx demo_state = 0"
  "frst_orb_left demo_state = demo_freq / 10 ^ 15" "time_evo demo_state = demo_dt"
  "outs demo_state = (\<lambda>_. None, \<lambda>_. Some 0)"
  by (simp_all add: demo_state_def outs_def)

lemma demo_locate:
  "locate_bin demo demo_freq 25 (demo_dt + 25) demo_state =
     (demo_state\<lparr>interp_left := 0\<rparr>,
      \<lparr>time_left = 25, time_right = demo_dt + 25, interp_right = 0,
       redz_left = 3 / 2, redz_right = 2 - (demo_dt + 25) / 50,
       fobs_orb_left = demo_freq / 10 ^ 15 / (1 + 3 / 2),
       fobs_orb_right = demo_freq / (1 + (2 - (demo_dt + 25) / 50))\<rparr>)"
  by (simp only: locate_bin_def Let_def demo_tables demo_index demo_interp demo_state_facts)

lemma demo_not_stalled: "\<not> stalled demo (redz_age demo) 0 0 0 (time_evo demo_state - demo_dt)"
  by (simp add: stalled_def demo_facts demo_ages demo_age_universe)

lemma demo_locate_zbody:
  "locate_bin demo demo_freq ((time_evo demo_state - demo_dt) + gmt_time demo 0 0 0 + redz_age demo 0)
      (time_evo demo_state + gmt_time demo 0 0 0 + redz_age demo 0) demo_state =
   locate_bin demo demo_freq 25 (demo_dt + 25) demo_state"
  by (simp add: demo_facts demo_ages)

lemma demo_zbody:
  "zbody demo (redz_age demo) 0 0 demo_freq demo_dt 0 demo_state =
     (Continue,
      crossings demo 0 0 0 (snd (locate_bin demo demo_freq 25 (demo_dt + 25) demo_state)) 0 1
        (demo_state\<lparr>interp_left := 0, fidx := 0\<rparr>))"
proof -
  define b where "b = snd (locate_bin demo demo_freq 25 (demo_dt + 25) demo_state)"
  define st1 where "st1 = demo_state\<lparr>interp_left := 0\<rparr>"
  have lb: "locate_bin demo demo_freq ((time_evo demo_state - demo_dt) + gmt_time demo 0 0 0
      + redz_age demo 0) (time_evo demo_state + gmt_time demo 0 0 0 + redz_age demo 0) demo_state
      = (st1, b)"
    unfolding demo_locate_zbody b_def st1_def by (simp add: demo_locate)
  have fl: "fobs_orb_left b = demo_freq / 10 ^ 15 / (1 + 3 / 2)"
    by (simp add: b_def demo_locate)
  have nb: "\<not> fobs_orb_left b > mget (target_fobs_orb demo) (nf demo - 1)"
    using demo_freq_bounds(2) by (simp add: fl demo_facts)
  have fi: "while_while (fidx st1) (nf demo) (fobs_orb_left b) (target_fobs_orb demo) = 0"
    by (simp add: st1_def demo_facts while_while_single)
  show ?thesis
    using zbody_live [OF demo_not_stalled lb nb]
    by (simp add: fi while_while_single demo_facts b_def st1_def)
qed

lemma demo_crossing_conds:
  "fobs_orb_left (snd (locate_bin demo demo_freq 25 (demo_dt + 25) demo_state)) < 1"
  "1 < fobs_orb_right (snd (locate_bin demo demo_freq 25 (demo_dt + 25) demo_state))"
  "0 < interp_between_vals 1
         (fobs_orb_left (snd (locate_bin demo demo_freq 25 (demo_dt + 25) demo_state)))
         (fobs_orb_right (snd (locate_bin demo demo_freq 25 (demo_dt + 25) demo_state)))
         (redz_left (snd (locate_bin demo demo_freq 25 (demo_dt + 25) demo_state)))
         (redz_right (snd (locate_bin demo demo_freq 25 (demo_dt + 25) demo_state)))"
proof -
  let ?b = "snd (locate_bin demo demo_freq 25 (demo_dt + 25) demo_state)"
  have zr: "0 < redz_right ?b" "redz_right ?b < 1"
    using demo_dt_bounds by (simp_all add: demo_locate)
  show l: "fobs_orb_left ?b < 1"
    using demo_freq_bounds(2) by (simp add: demo_locate)
  have "1 + redz_right ?b < demo_freq"
    using zr demo_freq_bounds(1) by simp
  moreover have "fobs_orb_right ?b = demo_freq / (1 + redz_right ?b)"
    by (simp add: demo_locate)
  ultimately show r: "1 < fobs_orb_right ?b"
    using zr by (simp add: pos_less_divide_eq)
  show "0 < interp_between_vals 1 (fobs_orb_left ?b) (fobs_orb_right ?b) (redz_left ?b) (redz_right ?b)"
    using l r zr(1) by (intro interp_between_vals_pos) (simp_all add: demo_locate)
qed

lemma demo_crossing:
  "redz_final (crossings demo 0 0 0 (snd (locate_bin demo demo_freq 25 (demo_dt + 25) demo_state))
      0 1 st) (0, 0, 0, 0) \<noteq> None"
  by (rule crossings_records) (simp_all add: demo_crossing_conds demo_facts)

lemma demo_result:
  "dynamic_binary_number_at_fobs demo =
     outs (crossings demo 0 0 0 (snd (locate_bin demo demo_freq 25 (demo_dt + 25) demo_state)) 0 1
        (demo_state\<lparr>interp_left := 0, fidx := 0\<rparr>))"
  by (simp add: demo_pass [OF demo_same(1)] demo_facts zloop_one demo_zbody)

text \<open>
  C5, the claim as stated fails: with the single target edge of the one-binary input
  the mapper records a crossing of that edge in cell \<open>(0, 0, 0, 0)\<close>.
\<close>

theorem single_edge_crossing_recorded:
  "nf demo = 1 \<and> fst (dynamic_binary_number_at_fobs demo) (0, 0, 0, 0) \<noteq> None"
  using demo_crossing [of "demo_state\<lparr>interp_left := 0, fidx := 0\<rparr>"]
  by (simp add: demo_result outs_def demo_facts)

lemma demo_piecewise:
  "piecewise_linear (cells (tage_interp_grid demo)) (cells (redz_interp_grid demo)) (demo_dt + 25)
     = Some (1 - (demo_dt - 25) / 950)"
proof -
  have "piecewise_linear [0, 50, 1000] [2, 1, 0] (demo_dt + 25)
      = Some (1 + (0 - 1) * (demo_dt + 25 - 50) / (1000 - 50))"
    using demo_dt_bounds by simp
  also have "(1::real) + (0 - 1) * (demo_dt + 25 - 50) / (1000 - 50) = 1 - (demo_dt - 25) / 950"
    by (simp add: field_simps)
  finally show ?thesis
    by (simp add: demo_tables buf_def)
qed

lemma demo_redz_right_low: "2 - (demo_dt + 25) / 50 < 1 - (demo_dt - 25) / 950"
proof -
  have a: "2 - (demo_dt + 25) / 50 < 3 / 5"
    using demo_dt_bounds(1) by (simp add: field_simps)
  have b: "3 / 5 < 1 - (demo_dt - 25) / 950"
    using demo_dt_bounds(2) by (simp add: field_simps)
  show ?thesis by (rule less_trans [OF a b])
qed

text \<open>
  C3, on the one-binary input: at the only step and bin the left-edge time is \<open>25\<close> and
  the right-edge time \<open>demo_dt + 25\<close> lies beyond the second table age \<open>50\<close>. The
  index the code keeps for the right edge is \<open>0\<close>, the one found for the left-edge
  time, and the right-edge redshift it computes on that segment is below the
  piecewise-linear interpolant of the table at the right-edge time. The last conjunct
  says that these are the edges the pass works with.
\<close>

theorem right_edge_index_brackets_left_time:
  "interp_right (snd (locate_bin demo demo_freq 25 (demo_dt + 25) demo_state)) = 0
   \<and> mget (tage_interp_grid demo) 1
       < time_right (snd (locate_bin demo demo_freq 25 (demo_dt + 25) demo_state))
   \<and> piecewise_linear (cells (tage_interp_grid demo)) (cells (redz_interp_grid demo))
        (time_right (snd (locate_bin demo demo_freq 25 (demo_dt + 25) demo_state)))
       = Some (1 - (demo_dt - 25) / 950)
   \<and> redz_right (snd (locate_bin demo demo_freq 25 (demo_dt + 25) demo_state))
       < 1 - (demo_dt - 25) / 950
   \<and> dynamic_binary_number_at_fobs demo =
       outs (crossings demo 0 0 0 (snd (locate_bin demo demo_freq 25 (demo_dt + 25) demo_state))
               0 1 (demo_state\<lparr>interp_left := 0, fidx := 0\<rparr>))"
proof -
  have "mget (tage_interp_grid demo) 1 < demo_dt + 25"
    using demo_dt_bounds(1) by (simp add: demo_tables mget_buf)
  then show ?thesis
    using demo_piecewise demo_redz_right_low demo_result
    by (simp add: demo_locate)
qed

section \<open>The early exit from the loop over redshifts\<close>

lemma two_bins_facts:
  "gmt_time demo_two_bins 0 0 0 = 0" "gmt_time demo_two_bins 0 0 (Suc 0) = 44"
  "nf demo_two_bins = 1" "mget (target_fobs_orb demo_two_bins) 0 = 45 / 10 ^ 8"
  "nat (nz demo_two_bins) = Suc (Suc 0)"
  "tage_interp_grid demo_two_bins = buf [0, 50, 1000]"
  "redz_interp_grid demo_two_bins = buf [9, 1, 0]" "ninterp demo_two_bins = 3"
  by (simp_all add: demo_two_bins_def demo_def nf_def nz_def ninterp_def msize_def mget_def
      buf_def numeral_2_eq_2)

lemma two_bins_index:
  "while_while 0 3 45 (buf [0, 50, 1000]) = 0" "while_while 0 3 5 (buf [0, 50, 1000]) = 0"
  by (simp_all add: while_while_def while_while_up.simps while_while_down.simps mget_buf)

lemma two_bins_interp:
  "interp_at_index 0 45 (buf [0, 50, 1000]) (buf [9, 1, 0]) = 9 / 5"
  "interp_at_index 0 5 (buf [0, 50, 1000]) (buf [9, 1, 0]) = 41 / 5"
  by (simp_all add: interp_at_index_def mget_buf)

lemma two_bins_locate_1:
  "locate_bin demo_two_bins demo_freq 45 (demo_dt + 45) demo_state =
     (demo_state\<lparr>interp_left := 0\<rparr>,
      \<lparr>time_left = 45, time_right = demo_dt + 45, interp_right = 0,
       redz_left = 9 / 5,
       redz_right = interp_at_index 0 (demo_dt + 45) (buf [0, 50, 1000]) (buf [9, 1, 0]),
       fobs_orb_left = demo_freq / 10 ^ 15 / (1 + 9 / 5),
       fobs_orb_right = demo_freq
          / (1 + interp_at_index 0 (demo_dt + 45) (buf [0, 50, 1000]) (buf [9, 1, 0]))\<rparr>)"
  by (simp only: locate_bin_def Let_def two_bins_facts two_bins_index two_bins_interp
      demo_state_facts)

lemma two_bins_locate_0:
  "locate_bin demo_two_bins demo_freq 5 (demo_dt + 5) (demo_state\<lparr>interp_left := 0\<rparr>) =
     (demo_state\<lparr>interp_left := 0\<rparr>,
      \<lparr>time_left = 5, time_right = demo_dt + 5, interp_right = 0,
       redz_left = 41 / 5,
       redz_right = interp_at_index 0 (demo_dt + 5) (buf [0, 50, 1000]) (buf [9, 1, 0]),
       fobs_orb_left = demo_freq / 10 ^ 15 / (1 + 41 / 5),
       fobs_orb_right = demo_freq
          / (1 + interp_at_index 0 (demo_dt + 5) (buf [0, 50, 1000]) (buf [9, 1, 0]))\<rparr>)"
proof -
  have s: "interp_left (demo_state\<lparr>interp_left := 0\<rparr>) = 0"
    "frst_orb_left (demo_state\<lparr>interp_left := 0\<rparr>) = demo_freq / 10 ^ 15"
    "(demo_state\<lparr>interp_left := 0\<rparr>)\<lparr>interp_left := 0\<rparr> = demo_state\<lparr>interp_left := 0\<rparr>"
    by (simp_all add: demo_state_facts)
  show ?thesis
    by (simp only: locate_bin_def Let_def two_bins_facts two_bins_index two_bins_interp s)
qed

lemma two_bins_redz_right_0:
  "interp_at_index 0 (demo_dt + 5) (buf [0, 50, 1000]) (buf [9, 1, 0]) = 9 - 8 * (demo_dt + 5) / 50"
  by (simp add: interp_at_index_def mget_buf)

lemma two_bins_break:
  "zbody demo_two_bins (redz_age demo_two_bins) 0 0 demo_freq demo_dt (Suc 0) demo_state
     = (Break, demo_state\<lparr>interp_left := 0\<rparr>)"
proof (rule zbody_break)
  show "\<not> stalled demo_two_bins (redz_age demo_two_bins) 0 0 (Suc 0) (time_evo demo_state - demo_dt)"
    by (simp add: stalled_def demo_state_facts two_bins_facts demo_ages demo_age_universe)
  show "locate_bin demo_two_bins demo_freq
      (time_evo demo_state - demo_dt + gmt_time demo_two_bins 0 0 (Suc 0)
        + redz_age demo_two_bins (Suc 0))
      (time_evo demo_state + gmt_time demo_two_bins 0 0 (Suc 0) + redz_age demo_two_bins (Suc 0))
      demo_state = (demo_state\<lparr>interp_left := 0\<rparr>,
      \<lparr>time_left = 45, time_right = demo_dt + 45, interp_right = 0,
       redz_left = 9 / 5,
       redz_right = interp_at_index 0 (demo_dt + 45) (buf [0, 50, 1000]) (buf [9, 1, 0]),
       fobs_orb_left = demo_freq / 10 ^ 15 / (1 + 9 / 5),
       fobs_orb_right = demo_freq
          / (1 + interp_at_index 0 (demo_dt + 45) (buf [0, 50, 1000]) (buf [9, 1, 0]))\<rparr>)"
  proof -
    have tl: "time_evo demo_state - demo_dt + gmt_time demo_two_bins 0 0 (Suc 0)
        + redz_age demo_two_bins (Suc 0) = 45"
      by (simp add: demo_state_facts two_bins_facts demo_ages)
    have tr: "time_evo demo_state + gmt_time demo_two_bins 0 0 (Suc 0)
        + redz_age demo_two_bins (Suc 0) = demo_dt + 45"
      by (simp add: demo_state_facts two_bins_facts demo_ages)
    show ?thesis
      by (simp only: tl tr two_bins_locate_1)
  qed
  show "mget (target_fobs_orb demo_two_bins) (nf demo_two_bins - 1)
      < fobs_orb_left \<lparr>time_left = 45, time_right = demo_dt + 45, interp_right = 0,
       redz_left = 9 / 5,
       redz_right = interp_at_index 0 (demo_dt + 45) (buf [0, 50, 1000]) (buf [9, 1, 0]),
       fobs_orb_left = demo_freq / 10 ^ 15 / (1 + 9 / 5),
       fobs_orb_right = demo_freq
          / (1 + interp_at_index 0 (demo_dt + 45) (buf [0, 50, 1000]) (buf [9, 1, 0]))\<rparr>"
    using demo_freq_bounds(1) by (simp add: two_bins_facts)
qed

lemma two_bins_result:
  "dynamic_binary_number_at_fobs demo_two_bins = (\<lambda>_. None, \<lambda>_. Some 0)"
proof -
  have "redz_final demo_state = (\<lambda>_. None)" "diff_num demo_state = (\<lambda>_. Some 0)"
    by (simp_all add: demo_state_def)
  then show ?thesis
    by (simp add: demo_pass [OF demo_same(3)] two_bins_facts two_bins_break outs_def)
qed


lemma two_bins_zbody_0:
  "zbody demo_two_bins (redz_age demo_two_bins) 0 0 demo_freq demo_dt 0
      (demo_state\<lparr>interp_left := 0\<rparr>) =
     (Continue,
      crossings demo_two_bins 0 0 0
        (snd (locate_bin demo_two_bins demo_freq 5 (demo_dt + 5) (demo_state\<lparr>interp_left := 0\<rparr>)))
        0 (45 / 10 ^ 8) (demo_state\<lparr>interp_left := 0, fidx := 0\<rparr>))"
proof -
  define st where "st = demo_state\<lparr>interp_left := 0\<rparr>"
  define b where "b = snd (locate_bin demo_two_bins demo_freq 5 (demo_dt + 5) st)"
  have sf: "time_evo st = demo_dt" "fidx st = 0"
    by (simp_all add: st_def demo_state_facts)
  have ns: "\<not> stalled demo_two_bins (redz_age demo_two_bins) 0 0 0 (time_evo st - demo_dt)"
    by (simp add: stalled_def sf two_bins_facts demo_ages demo_age_universe)
  have tl: "time_evo st - demo_dt + gmt_time demo_two_bins 0 0 0 + redz_age demo_two_bins 0 = 5"
    by (simp add: sf two_bins_facts demo_ages)
  have tr: "time_evo st + gmt_time demo_two_bins 0 0 0 + redz_age demo_two_bins 0 = demo_dt + 5"
    by (simp add: sf two_bins_facts demo_ages)
  have lb: "locate_bin demo_two_bins demo_freq
      (time_evo st - demo_dt + gmt_time demo_two_bins 0 0 0 + redz_age demo_two_bins 0)
      (time_evo st + gmt_time demo_two_bins 0 0 0 + redz_age demo_two_bins 0) st = (st, b)"
    unfolding tl tr by (simp add: b_def st_def two_bins_locate_0)
  have fl: "fobs_orb_left b = demo_freq / 10 ^ 15 / (1 + 41 / 5)"
    unfolding b_def st_def by (simp add: two_bins_locate_0)
  have nb: "\<not> fobs_orb_left b > mget (target_fobs_orb demo_two_bins) (nf demo_two_bins - 1)"
    using demo_freq_bounds(2) by (simp add: fl two_bins_facts)
  show ?thesis
    using zbody_live [OF ns lb nb]
    by (simp add: while_while_single two_bins_facts sf)
      (simp add: b_def st_def)
qed

lemma two_bins_crossing:
  "redz_final (crossings demo_two_bins 0 0 0
      (snd (locate_bin demo_two_bins demo_freq 5 (demo_dt + 5) (demo_state\<lparr>interp_left := 0\<rparr>)))
      0 (45 / 10 ^ 8) st) (0, 0, 0, 0) \<noteq> None"
proof (rule crossings_records)
  let ?b = "snd (locate_bin demo_two_bins demo_freq 5 (demo_dt + 5) (demo_state\<lparr>interp_left := 0\<rparr>))"
  have zr: "0 < redz_right ?b" "redz_right ?b < 1"
    using demo_dt_bounds by (simp_all add: two_bins_locate_0 two_bins_redz_right_0)
  show l: "fobs_orb_left ?b < 45 / 10 ^ 8"
    using demo_freq_bounds(2) by (simp add: two_bins_locate_0)
  have "45 / 10 ^ 8 * (1 + redz_right ?b) < demo_freq"
    using zr demo_freq_bounds(1) by simp
  moreover have "fobs_orb_right ?b = demo_freq / (1 + redz_right ?b)"
    by (simp add: two_bins_locate_0)
  ultimately show r: "45 / 10 ^ 8 < fobs_orb_right ?b"
    using zr by (simp add: pos_less_divide_eq)
  show "(0::int) \<le> 0" by simp
  show "0 < nf demo_two_bins" by (simp add: two_bins_facts)
  show "0 < interp_between_vals (45 / 10 ^ 8) (fobs_orb_left ?b) (fobs_orb_right ?b)
      (redz_left ?b) (redz_right ?b)"
    using l r zr(1) by (intro interp_between_vals_pos) (simp_all add: two_bins_locate_0)
qed

text \<open>
  C7, on the two-bin input: at the only step the higher formation redshift (bin \<open>1\<close>) has
  the larger galaxy-merger time; its left-edge observed frequency is above the only target
  edge and the loop over redshifts breaks, so the pass returns both fields untouched. The
  lower-redshift bin \<open>0\<close> is never examined, although its left-edge observed frequency is
  smaller than that of bin \<open>1\<close> and the loop body, run on it from the state at the break,
  records a crossing in cell \<open>(0, 0, 0, 0)\<close>.
\<close>

theorem break_skips_crossing_at_lower_redshift:
  "zbody demo_two_bins (redz_age demo_two_bins) 0 0 demo_freq demo_dt (Suc 0) demo_state
     = (Break, demo_state\<lparr>interp_left := 0\<rparr>)
   \<and> dynamic_binary_number_at_fobs demo_two_bins = (\<lambda>_. None, \<lambda>_. Some 0)
   \<and> fobs_orb_left (snd (locate_bin demo_two_bins demo_freq 5 (demo_dt + 5)
                            (demo_state\<lparr>interp_left := 0\<rparr>)))
       < fobs_orb_left (snd (locate_bin demo_two_bins demo_freq 45 (demo_dt + 45) demo_state))
   \<and> redz_final (snd (zbody demo_two_bins (redz_age demo_two_bins) 0 0 demo_freq demo_dt 0
                          (demo_state\<lparr>interp_left := 0\<rparr>))) (0, 0, 0, 0) \<noteq> None"
proof -
  have "0 < demo_freq"
    using demo_freq_bounds(1) by simp
  then have "fobs_orb_left (snd (locate_bin demo_two_bins demo_freq 5 (demo_dt + 5)
                            (demo_state\<lparr>interp_left := 0\<rparr>)))
       < fobs_orb_left (snd (locate_bin demo_two_bins demo_freq 45 (demo_dt + 45) demo_state))"
    by (simp add: two_bins_locate_0 two_bins_locate_1)
  then show ?thesis
    using two_bins_crossing [of "demo_state\<lparr>interp_left := 0, fidx := 0\<rparr>"]
    by (simp add: two_bins_break two_bins_result two_bins_zbody_0)
qed

section \<open>The number written at a crossing\<close>

lemma KEPLER_CONST_SEPA_pos: "0 < KEPLER_CONST_SEPA"
  by (simp add: KEPLER_CONST_SEPA_def MY_NWTG_def)

lemma kepler_sepa_from_freq_pos:
  "0 < m \<Longrightarrow> 0 < f \<Longrightarrow> 0 < kepler_sepa_from_freq m f"
  using KEPLER_CONST_SEPA_pos by (simp add: kepler_sepa_from_freq_def)

lemma cosmo_fact_eq:
  "FOUR_PI_SPLC_OVER_MPC * (1 + newz) * (dcom / MY_MPC) ^ 2
     = 4 * pi * MY_SPLC * (1 + newz) * dcom ^ 2 / MY_MPC ^ 3"
  by (simp add: FOUR_PI_SPLC_OVER_MPC_def power_divide power3_eq_cube power2_eq_square)

lemma record_crossing_number:
  "diff_num (record_crossing A ii jj kk b ff ftemp newz st) (ii, jj, kk, ff)
     = Some (number_at_crossing 3 A ii jj kk b (interp_left st) ftemp newz)"
  unfolding record_crossing_def number_at_crossing_def Let_def cosmo_fact_eq
  by simp

lemma number_at_crossing_powers:
  "number_at_crossing 2 A ii jj kk b i ftemp newz
     = number_at_crossing 3 A ii jj kk b i ftemp newz * MY_MPC"
  by (simp add: number_at_crossing_def Let_def MY_MPC_def power3_eq_cube power2_eq_square)


lemma number_at_crossing_pos:
  assumes "0 < mget (mtot A) (int ii)" "0 < mget (mrat A) (int jj)" "0 \<le> hard_norm A ii jj"
    "0 < hard_rchar A" "0 < ftemp" "0 < newz" "0 < dens A ii jj kk"
    and "interp_between_vals ftemp (fobs_orb_left b) (fobs_orb_right b)
           (interp_at_index i (time_left b) (tage_interp_grid A) (dcom_interp_grid A))
           (interp_at_index (interp_right b) (time_right b)
              (tage_interp_grid A) (dcom_interp_grid A)) \<noteq> 0"
  shows "0 < number_at_crossing p A ii jj kk b i ftemp newz"
proof -
  define sepa where "sepa = kepler_sepa_from_freq (mget (mtot A) (int ii)) (ftemp * (1 + newz))"
  define dadt where "dadt = hard_func_2pwl_gw (mget (mtot A) (int ii)) (mget (mrat A) (int jj))
      sepa (hard_norm A ii jj) (hard_rchar A) (hard_gamma_inner A) (hard_gamma_outer A)"
  define dcom where "dcom = interp_between_vals ftemp (fobs_orb_left b) (fobs_orb_right b)
           (interp_at_index i (time_left b) (tage_interp_grid A) (dcom_interp_grid A))
           (interp_at_index (interp_right b) (time_right b)
              (tage_interp_grid A) (dcom_interp_grid A))"
  have s: "0 < sepa"
    unfolding sepa_def using assms(1,5,6) by (intro kepler_sepa_from_freq_pos) simp_all
  have d: "dadt < 0"
    unfolding dadt_def using assms(1-4) s by (intro hard_func_2pwl_gw_neg)
  have "- (2 / 3) * sepa < 0"
    using s by simp
  then have tau: "0 < - (2 / 3) * sepa / dadt"
    using d by (rule divide_neg_neg)
  have "0 < dcom ^ 2"
    using assms(8) by (simp add: dcom_def)
  moreover have "0 < MY_MPC ^ p"
    by (simp add: MY_MPC_def)
  ultimately have w: "0 < 4 * pi * MY_SPLC * (1 + newz) * dcom ^ 2 / MY_MPC ^ p"
    using assms(6) by (simp add: MY_SPLC_def)
  have eq: "number_at_crossing p A ii jj kk b i ftemp newz =
      dens A ii jj kk * (- (2 / 3) * sepa / dadt)
        * (4 * pi * MY_SPLC * (1 + newz) * dcom ^ 2 / MY_MPC ^ p)"
    by (simp add: number_at_crossing_def Let_def sepa_def dadt_def dcom_def)
  have "0 < dens A ii jj kk * (- (2 / 3) * sepa / dadt)"
    using assms(7) tau by (rule mult_pos_pos)
  then have "0 < dens A ii jj kk * (- (2 / 3) * sepa / dadt)
        * (4 * pi * MY_SPLC * (1 + newz) * dcom ^ 2 / MY_MPC ^ p)"
    using w by (rule mult_pos_pos)
  then show ?thesis
    by (simp only: eq)
qed

lemma demo_dcom:
  "interp_at_index 0 25 (buf [0, 50, 1000]) (buf [5, 3, 0]) = 4"
  "interp_at_index 0 (demo_dt + 25) (buf [0, 50, 1000]) (buf [5, 3, 0])
     = 5 - 2 * (demo_dt + 25) / 50"
  by (simp_all add: interp_at_index_def mget_buf)

lemma demo_number_pos:
  "0 < number_at_crossing p demo 0 0 0
         (snd (locate_bin demo demo_freq 25 (demo_dt + 25) demo_state)) 0 1
         (interp_between_vals 1
            (fobs_orb_left (snd (locate_bin demo demo_freq 25 (demo_dt + 25) demo_state)))
            (fobs_orb_right (snd (locate_bin demo demo_freq 25 (demo_dt + 25) demo_state)))
            (redz_left (snd (locate_bin demo demo_freq 25 (demo_dt + 25) demo_state)))
            (redz_right (snd (locate_bin demo demo_freq 25 (demo_dt + 25) demo_state))))"
proof (rule number_at_crossing_pos)
  let ?b = "snd (locate_bin demo demo_freq 25 (demo_dt + 25) demo_state)"
  show "0 < mget (mtot demo) (int 0)" "0 < mget (mrat demo) (int 0)" "0 \<le> hard_norm demo 0 0"
    "0 < hard_rchar demo"
    using same_binary_mt [OF demo_same(1)] by (simp_all add: demo_mass_def)
  show "(0::real) < 1" by simp
  show "0 < interp_between_vals 1 (fobs_orb_left ?b) (fobs_orb_right ?b) (redz_left ?b) (redz_right ?b)"
    by (rule demo_crossing_conds)
  show "0 < dens demo 0 0 0" by (simp add: demo_def)
  have "0 < interp_at_index 0 (time_left ?b) (tage_interp_grid demo) (dcom_interp_grid demo)"
    by (simp add: demo_locate demo_tables demo_dcom)
  moreover have "0 < interp_at_index (interp_right ?b) (time_right ?b) (tage_interp_grid demo)
      (dcom_interp_grid demo)"
    using demo_dt_bounds(2) by (simp add: demo_locate demo_tables demo_dcom)
  ultimately have "0 < interp_between_vals 1 (fobs_orb_left ?b) (fobs_orb_right ?b)
      (interp_at_index 0 (time_left ?b) (tage_interp_grid demo) (dcom_interp_grid demo))
      (interp_at_index (interp_right ?b) (time_right ?b) (tage_interp_grid demo)
        (dcom_interp_grid demo))"
    using demo_crossing_conds(1,2) by (intro interp_between_vals_pos)
  then show "interp_between_vals 1 (fobs_orb_left ?b) (fobs_orb_right ?b)
      (interp_at_index 0 (time_left ?b) (tage_interp_grid demo) (dcom_interp_grid demo))
      (interp_at_index (interp_right ?b) (time_right ?b) (tage_interp_grid demo)
        (dcom_interp_grid demo)) \<noteq> 0"
    by simp
qed

lemma crossings_found:
  assumes "fobs_orb_left b < ftemp" "ftemp < fobs_orb_right b" "ff < nf A"
    and "newz = interp_between_vals ftemp (fobs_orb_left b) (fobs_orb_right b)
                  (redz_left b) (redz_right b)"
    and "0 < newz"
  shows "crossings A ii jj kk b ff ftemp st =
           crossings A ii jj kk b (ff + 1)
             (if ff + 1 < nf A then mget (target_fobs_orb A) (ff + 1) else ftemp)
             (record_crossing A ii jj kk b ff ftemp newz st)"
  using assms by (subst crossings.simps) (simp add: Let_def)

lemma crossings_done: "\<not> ff < nf A \<Longrightarrow> crossings A ii jj kk b ff ftemp st = st"
  by (subst crossings.simps) simp

lemma redz_final_record_crossing:
  "redz_final (record_crossing A ii jj kk b ff ftemp newz st) (ii, jj, kk, ff) = Some newz"
  by (simp add: record_crossing_def Let_def)

lemma demo_crossing_facts:
  "fobs_orb_left demo_bin < 1" "1 < fobs_orb_right demo_bin" "0 < demo_newz"
  unfolding demo_newz_def demo_bin_def by (rule demo_crossing_conds)+

lemma demo_final_state:
  "crossings demo 0 0 0 demo_bin 0 1 (demo_state\<lparr>interp_left := 0, fidx := 0\<rparr>) =
     record_crossing demo 0 0 0 demo_bin 0 1 demo_newz (demo_state\<lparr>interp_left := 0, fidx := 0\<rparr>)"
proof -
  have n: "(0::int) < nf demo" "\<not> (0::int) + 1 < nf demo"
    by (simp_all add: demo_facts)
  show ?thesis
    using crossings_found [OF demo_crossing_facts(1,2) n(1) demo_newz_def demo_crossing_facts(3),
        of 0 0 0 "demo_state\<lparr>interp_left := 0, fidx := 0\<rparr>"] n(2)
    by (simp add: crossings_done)
qed

lemma demo_outputs:
  "fst (dynamic_binary_number_at_fobs demo) (0, 0, 0, 0) = Some demo_newz"
  "snd (dynamic_binary_number_at_fobs demo) (0, 0, 0, 0)
     = Some (number_at_crossing 3 demo 0 0 0 demo_bin 0 1 demo_newz)"
  using demo_final_state
    record_crossing_number [of demo 0 0 0 demo_bin 0 1 demo_newz
      "demo_state\<lparr>interp_left := 0, fidx := 0\<rparr>"]
  by (simp_all add: demo_result demo_bin_def [symmetric] outs_def redz_final_record_crossing)

text \<open>
  C2 (as amended). When the crossing loop finds a target edge strictly between the two
  observed step-edge frequencies and the interpolated redshift \<open>newz\<close> is positive, it
  writes \<open>newz\<close> to RedshiftFinalField and, to the same cell of DifferentialNumberField,
  the density of the (mass, ratio, start-redshift) cell times the residence time
  \<open>- (2/3) * sepa / (da/dt)\<close> at the crossing separation times the weighting factor
  \<open>4 * pi * c * (1 + newz) * dcom^2 / Mpc^3\<close>, and goes on with the next edge.
\<close>

theorem crossing_writes_number:
  assumes "fobs_orb_left b < ftemp" "ftemp < fobs_orb_right b" "ff < nf A"
    and "newz = interp_between_vals ftemp (fobs_orb_left b) (fobs_orb_right b)
                  (redz_left b) (redz_right b)"
    and "0 < newz"
  shows "crossings A ii jj kk b ff ftemp st =
           crossings A ii jj kk b (ff + 1)
             (if ff + 1 < nf A then mget (target_fobs_orb A) (ff + 1) else ftemp)
             (record_crossing A ii jj kk b ff ftemp newz st)
         \<and> redz_final (record_crossing A ii jj kk b ff ftemp newz st) (ii, jj, kk, ff) = Some newz
         \<and> diff_num (record_crossing A ii jj kk b ff ftemp newz st) (ii, jj, kk, ff)
             = Some (number_at_crossing 3 A ii jj kk b (interp_left st) ftemp newz)"
  using crossings_found [OF assms, of ii jj kk st]
  by (simp only: redz_final_record_crossing record_crossing_number simp_thms)

theorem crossing_writes_number_witness:
  "fobs_orb_left demo_bin < 1 \<and> 1 < fobs_orb_right demo_bin \<and> 0 < nf demo \<and> 0 < demo_newz
   \<and> crossings demo 0 0 0 demo_bin 0 1 demo_state =
       crossings demo 0 0 0 demo_bin (0 + 1)
         (if 0 + 1 < nf demo then mget (target_fobs_orb demo) (0 + 1) else 1)
         (record_crossing demo 0 0 0 demo_bin 0 1 demo_newz demo_state)
   \<and> redz_final (record_crossing demo 0 0 0 demo_bin 0 1 demo_newz demo_state) (0, 0, 0, 0)
       = Some demo_newz
   \<and> diff_num (record_crossing demo 0 0 0 demo_bin 0 1 demo_newz demo_state) (0, 0, 0, 0)
       = Some (number_at_crossing 3 demo 0 0 0 demo_bin (interp_left demo_state) 1 demo_newz)"
proof -
  have n: "(0::int) < nf demo"
    by (simp add: demo_facts)
  show ?thesis
    using crossing_writes_number [OF demo_crossing_facts(1,2) n demo_newz_def
        demo_crossing_facts(3), of 0 0 0 demo_state]
      demo_crossing_facts n
    by simp
qed

text \<open>
  C2, the claim as stated fails: on the one-binary input the pass records the crossing of
  the only target edge in cell \<open>(0, 0, 0, 0)\<close>, and the number it writes there is not
  the one with the weighting factor \<open>4 * pi * c * (1 + newz) * dcom^2 / Mpc^2\<close>.
\<close>

theorem weighting_factor_counterexample:
  "fst (dynamic_binary_number_at_fobs demo) (0, 0, 0, 0) = Some demo_newz
   \<and> 0 < demo_newz
   \<and> snd (dynamic_binary_number_at_fobs demo) (0, 0, 0, 0)
       \<noteq> Some (number_at_crossing 2 demo 0 0 0 demo_bin 0 1 demo_newz)"
proof -
  have p: "0 < number_at_crossing 3 demo 0 0 0 demo_bin 0 1 demo_newz"
    unfolding demo_newz_def demo_bin_def by (rule demo_number_pos)
  have "number_at_crossing 3 demo 0 0 0 demo_bin 0 1 demo_newz
      \<noteq> number_at_crossing 3 demo 0 0 0 demo_bin 0 1 demo_newz * MY_MPC"
    using p by (simp add: MY_MPC_def)
  then show ?thesis
    using demo_outputs demo_crossing_facts(3)
    by (simp add: number_at_crossing_powers)
qed

section \<open>The trajectory of separations\<close>

lemma evolution_after_shape:
  "\<exists>d t. evolution_after pars nrm k =
     (log 10 (integrate_2pl_params.sepa_init pars) - real k * evolution_dx pars,
      10 powr (log 10 (integrate_2pl_params.sepa_init pars) - real k * evolution_dx pars), d, t)"
proof (induction k)
  case 0
  show ?case by (simp add: evolution_after_def evolution_init_def Let_def)
next
  case (Suc k)
  then obtain d t where s: "evolution_after pars nrm k =
     (log 10 (integrate_2pl_params.sepa_init pars) - real k * evolution_dx pars,
      10 powr (log 10 (integrate_2pl_params.sepa_init pars) - real k * evolution_dx pars), d, t)"
    by blast
  have "evolution_after pars nrm (Suc k) =
      evolution_step pars nrm (evolution_dx pars) (evolution_after pars nrm k)"
    by (simp add: evolution_after_def)
  then show ?case
    unfolding s by (simp add: evolution_step_def Let_def algebra_simps)
qed

lemma integrator_sepa_eq:
  "integrator_sepa pars nrm k =
     10 powr (log 10 (integrate_2pl_params.sepa_init pars) - real k * evolution_dx pars)"
  using evolution_after_shape [of pars nrm k] by (auto simp: integrator_sepa_def)

lemma mapper_sepa_eq:
  "sepa_left (mapper_after A ages ii jj out k) =
     10 powr (sepa_init_log10 A - real k * mapper_dx A ii)"
  using on_track_after [of A ii jj ages out k] sepa_log10_after [of A ages ii jj out k]
  by (simp add: on_track_def)

lemma mapper_freq_eq:
  "frst_orb_left (mapper_after A ages ii jj out k) =
     kepler_freq_from_sepa (mget (mtot A) (int ii)) (sepa_left (mapper_after A ages ii jj out k))"
  using on_track_after [of A ii jj ages out k] by (simp add: on_track_def)

lemma kepler_freq_from_sepa_antimono:
  assumes "0 < m" "0 < a" "a < a'"
  shows "kepler_freq_from_sepa m a' < kepler_freq_from_sepa m a"
proof -
  have c: "0 < KEPLER_CONST_FREQ * sqrt m"
    using assms(1) by (simp add: KEPLER_CONST_FREQ_def MY_NWTG_def)
  have p: "a powr (3 / 2) < a' powr (3 / 2)"
    using assms(2,3) by (intro powr_less_mono2) simp_all
  have "0 < a powr (3 / 2)" "0 < a' powr (3 / 2)"
    using assms(2,3) by simp_all
  then have "0 < a' powr (3 / 2) * a powr (3 / 2)"
    by simp
  then show ?thesis
    unfolding kepler_freq_from_sepa_def using c p by (intro divide_strict_left_mono)
qed


text \<open>
  C9. For a positive total mass, an initial separation strictly above the ISCO separation
  \<open>3 * MY_SCHW * mtot\<close> and at least one step, the separations visited by the integrator and
  by the mapper (same mass, initial separation and step count) are the same; they start at
  the initial separation, end at ISCO, strictly decrease from each step to the next, and
  the rest-frame orbital frequency of Kepler's law, which the mapper carries along,
  strictly increases from each step to the next.
\<close>

theorem trajectory_strictly_monotone:
  assumes "0 < mt pars"
    and "3 * MY_SCHW * mt pars < integrate_2pl_params.sepa_init pars"
    and "1 \<le> nsteps pars"
    and "mget (mtot A) (int ii) = mt pars"
    and "sepa_init A = integrate_2pl_params.sepa_init pars"
    and "num_steps A = nsteps pars"
    and "k < nat (nsteps pars)"
  shows "integrator_sepa pars nrm k = sepa_left (mapper_after A ages ii jj out k)
         \<and> integrator_sepa pars nrm (Suc k) = sepa_left (mapper_after A ages ii jj out (Suc k))
         \<and> integrator_sepa pars nrm 0 = integrate_2pl_params.sepa_init pars
         \<and> integrator_sepa pars nrm (nat (nsteps pars)) = 3 * MY_SCHW * mt pars
         \<and> integrator_sepa pars nrm (Suc k) < integrator_sepa pars nrm k
         \<and> frst_orb_left (mapper_after A ages ii jj out k)
             = kepler_freq_from_sepa (mt pars) (integrator_sepa pars nrm k)
         \<and> frst_orb_left (mapper_after A ages ii jj out (Suc k))
             = kepler_freq_from_sepa (mt pars) (integrator_sepa pars nrm (Suc k))
         \<and> kepler_freq_from_sepa (mt pars) (integrator_sepa pars nrm k)
             < kepler_freq_from_sepa (mt pars) (integrator_sepa pars nrm (Suc k))"
proof -
  define L where "L = log 10 (integrate_2pl_params.sepa_init pars)"
  define R where "R = log 10 (3 * MY_SCHW * mt pars)"
  define dx where "dx = evolution_dx pars"
  have risco: "0 < 3 * MY_SCHW * mt pars"
    using assms(1) by (simp add: MY_SCHW_def)
  then have init: "0 < integrate_2pl_params.sepa_init pars"
    using assms(2) by simp
  have dx: "dx = (L - R) / real_of_int (nsteps pars)"
    by (simp add: dx_def evolution_dx_def Let_def L_def R_def)
  have "R < L"
    unfolding L_def R_def using risco init assms(2) by (subst log_less_cancel_iff) simp_all
  then have dx_pos: "0 < dx"
    using assms(3) by (simp add: dx)
  have same_dx: "mapper_dx A ii = dx"
    by (simp add: mapper_dx_def sepa_init_log10_def Let_def assms(4-6) dx L_def R_def)
  have I: "integrator_sepa pars nrm j = 10 powr (L - real j * dx)" for j
    by (simp add: integrator_sepa_eq L_def dx_def)
  have M: "sepa_left (mapper_after A ages ii jj out j) = 10 powr (L - real j * dx)" for j
    by (simp add: mapper_sepa_eq same_dx sepa_init_log10_def assms(5) L_def)
  have same: "integrator_sepa pars nrm j = sepa_left (mapper_after A ages ii jj out j)" for j
    by (simp add: I M)
  have first: "integrator_sepa pars nrm 0 = integrate_2pl_params.sepa_init pars"
    using init by (simp add: I L_def)
  have "real (nat (nsteps pars)) * dx = L - R"
    using assms(3) by (simp add: dx)
  then have "integrator_sepa pars nrm (nat (nsteps pars)) = 10 powr R"
    by (simp add: I)
  then have last: "integrator_sepa pars nrm (nat (nsteps pars)) = 3 * MY_SCHW * mt pars"
    using risco by (simp add: R_def)
  have "L - real (Suc k) * dx < L - real k * dx"
    using dx_pos by (simp add: algebra_simps)
  then have dec: "integrator_sepa pars nrm (Suc k) < integrator_sepa pars nrm k"
    unfolding I by (intro powr_less_mono) simp_all
  have pos: "0 < integrator_sepa pars nrm (Suc k)"
    by (simp add: I)
  have F: "frst_orb_left (mapper_after A ages ii jj out j)
      = kepler_freq_from_sepa (mt pars) (integrator_sepa pars nrm j)" for j
    by (simp add: mapper_freq_eq assms(4) same)
  have inc: "kepler_freq_from_sepa (mt pars) (integrator_sepa pars nrm k)
      < kepler_freq_from_sepa (mt pars) (integrator_sepa pars nrm (Suc k))"
    using assms(1) pos dec by (rule kepler_freq_from_sepa_antimono)
  show ?thesis
    using same [of k] same [of "Suc k"] first last dec F [of k] F [of "Suc k"] inc
    by blast
qed


theorem trajectory_strictly_monotone_witness:
  "0 < mt demo_params
   \<and> 3 * MY_SCHW * mt demo_params < integrate_2pl_params.sepa_init demo_params
   \<and> 1 \<le> nsteps demo_params
   \<and> mget (mtot demo) (int 0) = mt demo_params
   \<and> sepa_init demo = integrate_2pl_params.sepa_init demo_params
   \<and> num_steps demo = nsteps demo_params
   \<and> 0 < nat (nsteps demo_params)
   \<and> integrator_sepa demo_params 1 0 = 10 ^ 10
   \<and> integrator_sepa demo_params 1 (Suc 0) = 1
   \<and> sepa_left (mapper_after demo (redz_age demo) 0 0 (\<lambda>_. None, \<lambda>_. Some 0) (Suc 0)) = 1
   \<and> integrator_sepa demo_params 1 (Suc 0) < integrator_sepa demo_params 1 0
   \<and> kepler_freq_from_sepa (mt demo_params) (integrator_sepa demo_params 1 0)
       < kepler_freq_from_sepa (mt demo_params) (integrator_sepa demo_params 1 (Suc 0))"
proof -
  have h: "0 < mt demo_params"
    "3 * MY_SCHW * mt demo_params < integrate_2pl_params.sepa_init demo_params"
    "1 \<le> nsteps demo_params"
    "mget (mtot demo) (int 0) = mt demo_params"
    "sepa_init demo = integrate_2pl_params.sepa_init demo_params"
    "num_steps demo = nsteps demo_params"
    "0 < nat (nsteps demo_params)"
    using same_binary_mt [OF demo_same(1)] isco_demo
    by (simp_all add: demo_params_def) (simp add: demo_mass_def)
  have v: "integrate_2pl_params.sepa_init demo_params = 10 ^ 10" "nat (nsteps demo_params) = Suc 0"
    "3 * MY_SCHW * mt demo_params = 1"
    using isco_demo by (simp_all add: demo_params_def)
  note t = trajectory_strictly_monotone [OF h, of 1 "redz_age demo" 0 "(\<lambda>_. None, \<lambda>_. Some 0)",
      unfolded v]
  have "sepa_left (mapper_after demo (redz_age demo) 0 0 (\<lambda>_. None, \<lambda>_. Some 0) (Suc 0)) = 1"
    using t by (elim conjE) (simp only:)
  then show ?thesis
    using t h unfolding v by blast
qed

section \<open>The residual of the normalization solver\<close>




lemma traj_sepa_pos: "0 < traj_sepa pars k"
  by (simp add: traj_sepa_def)

lemma evolution_dx_pos:
  assumes "valid_params pars"
  shows "0 < evolution_dx pars"
proof -
  have r: "0 < 3 * MY_SCHW * mt pars"
    using assms by (simp add: valid_params_def MY_SCHW_def)
  then have "log 10 (3 * MY_SCHW * mt pars) < log 10 (integrate_2pl_params.sepa_init pars)"
    using assms by (subst log_less_cancel_iff) (simp_all add: valid_params_def)
  then show ?thesis
    using assms by (simp add: evolution_dx_def Let_def valid_params_def)
qed

lemma traj_sepa_dec:
  assumes "valid_params pars"
  shows "traj_sepa pars (Suc k) < traj_sepa pars k"
proof -
  have "log 10 (integrate_2pl_params.sepa_init pars) - real (Suc k) * evolution_dx pars
      < log 10 (integrate_2pl_params.sepa_init pars) - real k * evolution_dx pars"
    using evolution_dx_pos [OF assms] by (simp add: algebra_simps)
  then show ?thesis
    unfolding traj_sepa_def by (intro powr_less_mono) simp_all
qed

lemma shape_at_pos:
  assumes "0 < rchar pars" "0 < a"
  shows "0 < shape_at pars a"
proof -
  have x: "0 < a / rchar pars"
    using assms by simp
  then have "1 + a / rchar pars \<noteq> 0" "a / rchar pars \<noteq> 0"
    by linarith+
  then have "0 < (1 + a / rchar pars) powr (- gamma_outer pars + gamma_inner pars)"
    "0 < (a / rchar pars) powr (gamma_inner pars - 1)"
    by (simp_all only: powr_gt_zero simp_thms)
  then show ?thesis
    unfolding shape_at_def by (rule divide_pos_pos)
qed

lemma rate_at_split:
  "rate_at pars nrm a = - (nrm * shape_at pars a) + hard_gw (mt pars) (mr pars) a"
  by (simp add: rate_at_def hard_func_2pwl_gw_def hard_func_2pwl_def shape_at_def)

lemma step_parts_pos:
  assumes "valid_params pars"
  shows "0 < step_num pars k" "0 < step_shape pars k" "0 < step_gw pars k"
proof -
  show "0 < step_num pars k"
    using traj_sepa_dec [OF assms, of k] by (simp add: step_num_def)
  show "0 < step_shape pars k"
    using assms shape_at_pos [of pars "traj_sepa pars k"]
      shape_at_pos [of pars "traj_sepa pars (Suc k)"]
    by (simp add: step_shape_def valid_params_def traj_sepa_pos)
  have "hard_gw (mt pars) (mr pars) (traj_sepa pars k) < 0"
    "hard_gw (mt pars) (mr pars) (traj_sepa pars (Suc k)) < 0"
    using assms by (simp_all add: valid_params_def hard_gw_neg traj_sepa_pos)
  then show "0 < step_gw pars k"
    by (simp add: step_gw_def)
qed

lemma step_time_form:
  "step_time pars nrm k = step_num pars k / (nrm * step_shape pars k + step_gw pars k)"
proof -
  have e1: "rate_at pars nrm (traj_sepa pars k) + rate_at pars nrm (traj_sepa pars (Suc k))
      = - (nrm * step_shape pars k + step_gw pars k)"
    by (simp add: rate_at_split step_shape_def step_gw_def algebra_simps)
  have e2: "2 * (traj_sepa pars (Suc k) - traj_sepa pars k) = - step_num pars k"
    by (simp add: step_num_def)
  show ?thesis
    unfolding step_time_def e1 e2 by (simp only: divide_minus_left divide_minus_right minus_minus)
qed

lemma step_time_antimono:
  assumes v: "valid_params pars" and n: "0 \<le> n1" "n1 < n2"
  shows "step_time pars n2 k < step_time pars n1 k"
proof -
  note p = step_parts_pos [OF v, of k]
  have d1: "0 < n1 * step_shape pars k + step_gw pars k"
    using n(1) p by (simp add: add_nonneg_pos)
  have lt: "n1 * step_shape pars k + step_gw pars k < n2 * step_shape pars k + step_gw pars k"
    using n(2) p(2) by simp
  then have d2: "0 < n2 * step_shape pars k + step_gw pars k"
    using d1 by simp
  have "0 < (n2 * step_shape pars k + step_gw pars k) * (n1 * step_shape pars k + step_gw pars k)"
    using d1 d2 by simp
  then show ?thesis
    unfolding step_time_form using lt p(1) by (intro divide_strict_left_mono)
qed

lemma step_time_below_gw:
  assumes v: "valid_params pars" and n: "0 < nrm"
  shows "step_time pars nrm k < step_num pars k / step_gw pars k"
  using step_time_antimono [OF v, of 0 nrm k] n by (simp add: step_time_form)




section \<open>Root finding and the solver's result\<close>



























section \<open>Sentinel cells, empty edges and stalled bins\<close>

lemma valid_pairI:
  assumes "0 < mget (mtot A) (int ii)" "0 < mget (mrat A) (int jj)" "0 \<le> hard_norm A ii jj"
    "0 < hard_rchar A" "3 * MY_SCHW * mget (mtot A) (int ii) \<le> sepa_init A" "0 \<le> num_steps A"
  shows "valid_pair A ii jj"
proof -
  have r: "0 < 3 * MY_SCHW * mget (mtot A) (int ii)"
    using assms(1) by (simp add: MY_SCHW_def)
  then have "log 10 (3 * MY_SCHW * mget (mtot A) (int ii)) \<le> log 10 (sepa_init A)"
    using assms(5) by (subst log_le_cancel_iff) simp_all
  then have "0 \<le> mapper_dx A ii"
    using assms(6) by (simp add: mapper_dx_def sepa_init_log10_def Let_def)
  with assms show ?thesis
    by (simp add: valid_pair_def)
qed

text \<open>
  C4 (as amended). The mapper starts from a RedshiftFinalField filled with the NaN sentinel
  and a DifferentialNumberField filled with zero. After the pass every cell is either
  untouched (sentinel in RedshiftFinalField, zero in DifferentialNumberField) or written in
  both fields together (a positive redshift and a number), so no DifferentialNumberField
  cell holds the sentinel.
\<close>

theorem output_cells_untouched_or_written:
  "dynamic_binary_number_at_fobs A =
     dynamic_binary_number_at_fobs_c A (\<lambda>_. None, \<lambda>_. Some 0)
   \<and> ((fst (dynamic_binary_number_at_fobs A) c = None
        \<and> snd (dynamic_binary_number_at_fobs A) c = Some 0)
       \<or> (\<exists>z v. 0 < z \<and> fst (dynamic_binary_number_at_fobs A) c = Some z
                \<and> snd (dynamic_binary_number_at_fobs A) c = Some v))"
  using mapper_cells_initial_or_written [of A c]
  by (simp add: dynamic_binary_number_at_fobs_def)

text \<open>
  C4, the claim as stated fails: for the stalled one-binary input the cell \<open>(0, 0, 0, 0)\<close>
  of RedshiftFinalField holds the sentinel after the pass while the same cell of
  DifferentialNumberField holds zero.
\<close>

theorem sentinel_iff_counterexample:
  "fst (dynamic_binary_number_at_fobs demo_stalled) (0, 0, 0, 0) = None
   \<and> snd (dynamic_binary_number_at_fobs demo_stalled) (0, 0, 0, 0) = Some 0
   \<and> \<not> (snd (dynamic_binary_number_at_fobs demo_stalled) (0, 0, 0, 0) = None
          \<longleftrightarrow> fst (dynamic_binary_number_at_fobs demo_stalled) (0, 0, 0, 0) = None)"
  using mapper_stalled_cell [OF demo_valid [OF demo_same(2)] demo_stalled_bin, of 0]
  by simp

text \<open>
  C5 (as amended). If the array of target frequency edges is empty, no crossing is
  recorded: both output fields are returned as they were initialised (sentinel in
  RedshiftFinalField, zero in DifferentialNumberField), for every input grid.
\<close>

theorem no_edges_no_crossings:
  "nf A = 0 \<Longrightarrow> dynamic_binary_number_at_fobs A = (\<lambda>_. None, \<lambda>_. Some 0)"
  by (rule mapper_no_edges)

theorem no_edges_no_crossings_witness:
  "nf (demo\<lparr>target_fobs_orb := buf []\<rparr>) = 0
   \<and> dynamic_binary_number_at_fobs (demo\<lparr>target_fobs_orb := buf []\<rparr>)
       = (\<lambda>_. None, \<lambda>_. Some 0)"
  using no_edges_no_crossings [of "demo\<lparr>target_fobs_orb := buf []\<rparr>"]
  by (simp add: nf_def msize_def buf_def)

text \<open>
  C6 (as amended). For a valid binary (positive mass and ratio, non-negative
  normalization, positive characteristic radius, initial separation not below ISCO), a
  cell whose galaxy-merger time plus age of the universe at the formation redshift exceeds
  the present age of the universe is never written: for every frequency index its
  RedshiftFinalField entry is still the sentinel and its DifferentialNumberField entry is
  still zero after the pass. At such a bin the loop body returns through \<^verbatim>\<open>continue\<close>
  with the state unchanged, and the loop goes on with the lower redshift bins.
\<close>

theorem stalled_cell_never_written:
  assumes "0 < mget (mtot A) (int ii)" "0 < mget (mrat A) (int jj)" "0 \<le> hard_norm A ii jj"
    "0 < hard_rchar A" "3 * MY_SCHW * mget (mtot A) (int ii) \<le> sepa_init A" "0 \<le> num_steps A"
    and "gmt_time A ii jj kk + redz_age A kk > age_universe A"
    and "0 \<le> time_evo st - dt"
  shows "fst (dynamic_binary_number_at_fobs A) (ii, jj, kk, f) = None
         \<and> snd (dynamic_binary_number_at_fobs A) (ii, jj, kk, f) = Some 0
         \<and> zbody A (redz_age A) ii jj fr dt kk st = (Continue, st)
         \<and> zloop A (redz_age A) ii jj fr dt (Suc kk) st = zloop A (redz_age A) ii jj fr dt kk st"
proof -
  have v: "valid_pair A ii jj"
    using assms(1-6) by (rule valid_pairI)
  have s0: "stalled A (redz_age A) ii jj kk 0"
    using assms(7) by (simp add: stalled_def)
  then have "stalled A (redz_age A) ii jj kk (time_evo st - dt)"
    using assms(8) by (rule stalled_later)
  then have z: "zbody A (redz_age A) ii jj fr dt kk st = (Continue, st)"
    by (rule zbody_stalled)
  then have "zloop A (redz_age A) ii jj fr dt (Suc kk) st = zloop A (redz_age A) ii jj fr dt kk st"
    by simp
  with z mapper_stalled_cell [OF v s0, of f] show ?thesis
    by simp
qed

theorem stalled_cell_never_written_witness:
  "0 < mget (mtot demo_stalled) (int 0) \<and> 0 < mget (mrat demo_stalled) (int 0)
   \<and> 0 \<le> hard_norm demo_stalled 0 0 \<and> 0 < hard_rchar demo_stalled
   \<and> 3 * MY_SCHW * mget (mtot demo_stalled) (int 0) \<le> sepa_init demo_stalled
   \<and> 0 \<le> num_steps demo_stalled
   \<and> gmt_time demo_stalled 0 0 0 + redz_age demo_stalled 0 > age_universe demo_stalled
   \<and> 0 \<le> time_evo demo_state - demo_dt
   \<and> fst (dynamic_binary_number_at_fobs demo_stalled) (0, 0, 0, 0) = None
   \<and> snd (dynamic_binary_number_at_fobs demo_stalled) (0, 0, 0, 0) = Some 0
   \<and> zbody demo_stalled (redz_age demo_stalled) 0 0 demo_freq demo_dt 0 demo_state
       = (Continue, demo_state)"
proof -
  have m: "mget (mtot demo_stalled) (int 0) = demo_mass"
    using same_binary_mt(1) [OF demo_same(2)] by simp
  have h: "0 < mget (mtot demo_stalled) (int 0)" "0 < mget (mrat demo_stalled) (int 0)"
    "0 \<le> hard_norm demo_stalled 0 0" "0 < hard_rchar demo_stalled"
    "3 * MY_SCHW * mget (mtot demo_stalled) (int 0) \<le> sepa_init demo_stalled"
    "0 \<le> num_steps demo_stalled"
    unfolding m isco_demo
    using same_binary_mt(2,5,6,9,10) [OF demo_same(2)] by (simp_all add: demo_mass_def)
  have s: "gmt_time demo_stalled 0 0 0 + redz_age demo_stalled 0 > age_universe demo_stalled"
    using demo_stalled_bin by (simp add: stalled_def)
  have t: "0 \<le> time_evo demo_state - demo_dt"
    by (simp add: demo_state_facts)
  show ?thesis
    using stalled_cell_never_written [OF h s t, of 0 demo_freq] h s t
    by simp
qed

text \<open>
  C6, the claim as stated fails: the stalled cell of the one-binary input keeps the value
  zero in DifferentialNumberField, which is not the sentinel.
\<close>

theorem stalled_cell_diff_num_counterexample:
  "gmt_time demo_stalled 0 0 0 + redz_age demo_stalled 0 > age_universe demo_stalled
   \<and> snd (dynamic_binary_number_at_fobs demo_stalled) (0, 0, 0, 0) \<noteq> None"
  using mapper_stalled_cell [OF demo_valid [OF demo_same(2)] demo_stalled_bin, of 0]
    demo_stalled_bin
  by (simp add: stalled_def)

end
